theory Spec2Isabelle
  imports Complex_Main "HOL-Library.Product_Lexorder" "HOL-Library.List_Lexorder"
    "HOL-Library.Char_ord"
begin

section \<open>Calendar dates\<close>

text \<open>
  The generators work on \<^verbatim>\<open>pd.Timestamp\<close> values that are always normalised to
  midnight, so a timestamp is a calendar date. A date is the triple (year, month, day);
  the lexicographic order on the triple is the chronological order. The three
  operations the scripts use are \<^verbatim>\<open>+ pd.Timedelta(days=n)\<close>,
  \<^verbatim>\<open>+ pd.DateOffset(months=n)\<close> (the day of the month is kept and clipped to
  the length of the target month) and \<^verbatim>\<open>.replace(day=1)\<close>.
\<close>

type_synonym date = "int \<times> int \<times> int"

definition year :: "date \<Rightarrow> int" where
  "year d = fst d"

definition month :: "date \<Rightarrow> int" where
  "month d = fst (snd d)"

definition day :: "date \<Rightarrow> int" where
  "day d = snd (snd d)"

definition is_leap :: "int \<Rightarrow> bool" where
  "is_leap y = (y mod 4 = 0 \<and> (y mod 100 \<noteq> 0 \<or> y mod 400 = 0))"

definition days_in_month :: "int \<Rightarrow> int \<Rightarrow> int" where
  "days_in_month y m =
     (if m = 2 then (if is_leap y then 29 else 28)
      else if m = 4 \<or> m = 6 \<or> m = 9 \<or> m = 11 then 30 else 31)"

definition valid_date :: "date \<Rightarrow> bool" where
  "valid_date d = (1 \<le> month d \<and> month d \<le> 12 \<and> 1 \<le> day d \<and> day d \<le> days_in_month (year d) (month d))"

definition next_day :: "date \<Rightarrow> date" where
  "next_day d =
     (if day d < days_in_month (year d) (month d) then (year d, month d, day d + 1)
      else if month d < 12 then (year d, month d + 1, 1)
      else (year d + 1, 1, 1))"

definition prev_day :: "date \<Rightarrow> date" where
  "prev_day d =
     (if 1 < day d then (year d, month d, day d - 1)
      else if 1 < month d then (year d, month d - 1, days_in_month (year d) (month d - 1))
      else (year d - 1, 12, 31))"

text \<open>\<^verbatim>\<open>ts + pd.Timedelta(days=n)\<close>; a negative \<open>n\<close> steps backwards.\<close>

definition add_days :: "int \<Rightarrow> date \<Rightarrow> date" where
  "add_days n d = (if 0 \<le> n then (next_day ^^ nat n) d else (prev_day ^^ nat (- n)) d)"

text \<open>\<^verbatim>\<open>ts + pd.DateOffset(months=n)\<close>.\<close>

definition add_months :: "int \<Rightarrow> date \<Rightarrow> date" where
  "add_months n d =
     (let t = year d * 12 + (month d - 1) + n;
          y = t div 12;
          m = t mod 12 + 1
      in (y, m, min (day d) (days_in_month y m)))"

text \<open>\<^verbatim>\<open>ts.replace(day=1)\<close>.\<close>

definition replace_day1 :: "date \<Rightarrow> date" where
  "replace_day1 d = (year d, month d, 1)"

text \<open>The last day of the calendar month before \<open>today\<close>:
  \<^verbatim>\<open>today.replace(day=1) - pd.offsets.Day(1)\<close>.\<close>

definition end_of_prev_month :: "date \<Rightarrow> date" where
  "end_of_prev_month today = add_days (- 1) (replace_day1 today)"


section \<open>Errors, money and the random source\<close>

text \<open>The exceptions the scripts and the libraries under them raise.\<close>

datatype error = ValueError | KeyError | IndexError | TypeError | AssertionError | NaNAmount

definition bind_err :: "error + 'a \<Rightarrow> ('a \<Rightarrow> error + 'b) \<Rightarrow> error + 'b" where
  "bind_err r f = (case r of Inl e \<Rightarrow> Inl e | Inr x \<Rightarrow> f x)"

text \<open>
  Amounts are Python floats holding two-decimal values; they are modelled as exact
  reals. \<^verbatim>\<open>round(x, 2)\<close> rounds to the nearest hundredth, ties to the even
  neighbour.
\<close>

definition round_half_even :: "real \<Rightarrow> int" where
  "round_half_even x =
     (let f = \<lfloor>x\<rfloor>; r = x - of_int f
      in if r < 1 / 2 then f else if 1 / 2 < r then f + 1 else if even f then f else f + 1)"

definition round2 :: "real \<Rightarrow> real" where
  "round2 x = of_int (round_half_even (x * 100)) / 100"

text \<open>
  \<^verbatim>\<open>np.random.Generator\<close> is a deterministic function of its state. The state
  is the stream of raw 64-bit outputs of the bit generator and the position reached
  in it; every sampling call reads the next raw output and advances the position.
  \<^item> \<^verbatim>\<open>rng.random()\<close> is the top 53 bits of the raw output scaled into [0, 1);
  \<^item> \<^verbatim>\<open>rng.integers(low, high)\<close> lies in [low, high) and raises ValueError when
    \<open>high \<le> low\<close>;
  \<^item> \<^verbatim>\<open>rng.uniform(low, high)\<close> is \<open>low + (high - low) * random()\<close> and raises
    ValueError when \<open>high < low\<close>.
\<close>

record rng =
  draws :: "nat \<Rightarrow> nat"
  pos :: nat

definition next_raw :: "rng \<Rightarrow> nat \<times> rng" where
  "next_raw g = (draws g (pos g) mod 2 ^ 64, g\<lparr>pos := Suc (pos g)\<rparr>)"

definition rng_random :: "rng \<Rightarrow> real \<times> rng" where
  "rng_random g = (case next_raw g of (r, g') \<Rightarrow> (real (r div 2 ^ 11) / 2 ^ 53, g'))"

definition rng_integers :: "rng \<Rightarrow> int \<Rightarrow> int \<Rightarrow> error + (int \<times> rng)" where
  "rng_integers g low high =
     (if high \<le> low then Inl ValueError
      else case next_raw g of (r, g') \<Rightarrow> Inr (low + int r mod (high - low), g'))"

definition rng_uniform :: "rng \<Rightarrow> real \<Rightarrow> real \<Rightarrow> error + (real \<times> rng)" where
  "rng_uniform g low high =
     (if high < low then Inl ValueError
      else case rng_random g of (u, g') \<Rightarrow> Inr (low + (high - low) * u, g'))"

text \<open>\<^verbatim>\<open>rng.random(n)\<close>: an array of \<open>n\<close> draws.\<close>

fun rng_random_n :: "rng \<Rightarrow> nat \<Rightarrow> real list \<times> rng" where
  "rng_random_n g 0 = ([], g)"
| "rng_random_n g (Suc n) =
     (case rng_random g of (u, g1) \<Rightarrow>
        (case rng_random_n g1 n of (us, g2) \<Rightarrow> (u # us, g2)))"

fun cumsum :: "real \<Rightarrow> real list \<Rightarrow> real list" where
  "cumsum acc [] = []"
| "cumsum acc (p # ps) = (acc + p) # cumsum (acc + p) ps"

text \<open>\<^verbatim>\<open>cdf.searchsorted(u, side='right')\<close> on a non-decreasing array: the number of
  leading entries that are \<open>\<le> u\<close>.\<close>

definition searchsorted_right :: "real list \<Rightarrow> real \<Rightarrow> nat" where
  "searchsorted_right cdf u = length (takeWhile (\<lambda>c. c \<le> u) cdf)"

text \<open>
  \<^verbatim>\<open>rng.choice(labels, p=p)\<close>, one sample. The generator rejects an empty
  population, a \<open>p\<close> of another length, a negative probability and a \<open>p\<close> that
  does not sum to 1 (within 1e-8), each with ValueError; then it draws one uniform
  number and returns the label whose cumulative-probability interval holds it.
\<close>

definition choice_checks :: "'a list \<Rightarrow> real list \<Rightarrow> bool" where
  "choice_checks labels p =
     (length p = length labels \<and> list_all (\<lambda>x. 0 \<le> x) p \<and> \<bar>sum_list p - 1\<bar> \<le> 1 / 10 ^ 8)"

definition rng_choice :: "rng \<Rightarrow> 'a list \<Rightarrow> real list \<Rightarrow> error + ('a \<times> rng)" where
  "rng_choice g labels p =
     (if labels = [] then Inl ValueError
      else if \<not> choice_checks labels p then Inl ValueError
      else case rng_random g of (u, g') \<Rightarrow>
        (let cdf = map (\<lambda>c. c / sum_list p) (cumsum 0 p);
             idx = searchsorted_right cdf u
         in if idx < length labels then Inr (labels ! idx, g') else Inl IndexError))"

text \<open>
  \<^verbatim>\<open>_choice_with_mix(rng, mix)\<close> of the subscription and payment scripts. The
  weights are divided by their sum with no check of the sum; when the sum is zero the
  quotients are NaN or infinite and \<^verbatim>\<open>rng.choice\<close> raises ValueError.
\<close>

definition choice_with_mix :: "rng \<Rightarrow> ('a \<times> real) list \<Rightarrow> error + ('a \<times> rng)" where
  "choice_with_mix g mix =
     (let labels = map fst mix;
          probs = map snd mix;
          s = sum_list probs
      in if s = 0 then Inl ValueError
         else rng_choice g labels (map (\<lambda>p. p / s) probs))"


section \<open>Subscription period allocator (02_subscriptions.py)\<close>

record customer =
  customer_id :: string
  signup_date :: date
  segment :: string
  region :: string
  acquisition_channel :: string
  cac :: real

record subs_config =
  max_periods_per_customer :: int
  pct_reactivate :: real
  min_months :: int
  max_months :: int
  start_delay_days_min :: int
  start_delay_days_max :: int
  reactivation_gap_min :: int
  reactivation_gap_max :: int
  plan_prices :: "(string \<times> real \<times> real) list"
  segment_plan_mix :: "(string \<times> (string \<times> real) list) list"
  price_noise_pct :: real

text \<open>The values \<^verbatim>\<open>SubsConfig()\<close> is built with.\<close>

definition default_subs_config :: subs_config where
  "default_subs_config =
     \<lparr> max_periods_per_customer = 2,
       pct_reactivate = 20 / 100,
       min_months = 3,
       max_months = 18,
       start_delay_days_min = 0,
       start_delay_days_max = 10,
       reactivation_gap_min = 15,
       reactivation_gap_max = 60,
       plan_prices =
         [(''Starter'', 20, 20), (''Pro'', 50, 50), (''Business'', 150, 150),
          (''Enterprise'', 500, 500)],
       segment_plan_mix =
         [(''SMB'', [(''Starter'', 55 / 100), (''Pro'', 40 / 100), (''Business'', 5 / 100),
                     (''Enterprise'', 0)]),
          (''Mid'', [(''Starter'', 10 / 100), (''Pro'', 55 / 100), (''Business'', 30 / 100),
                     (''Enterprise'', 5 / 100)]),
          (''Enterprise'', [(''Starter'', 0), (''Pro'', 15 / 100), (''Business'', 45 / 100),
                            (''Enterprise'', 40 / 100)])],
       price_noise_pct = 0 \<rparr>"

record period =
  sub_customer_id :: string
  start_date :: date
  end_date :: "date option"
  plan :: string
  price_mrr :: real
  status :: string

definition sample_price_mrr :: "rng \<Rightarrow> string \<Rightarrow> subs_config \<Rightarrow> error + (real \<times> rng)" where
  "sample_price_mrr g pl cfg =
     (case map_of (plan_prices cfg) pl of
        None \<Rightarrow> Inl KeyError
      | Some (low, high) \<Rightarrow>
          bind_err (rng_uniform g low high) (\<lambda>(base, g1).
          bind_err (rng_uniform g1 (- price_noise_pct cfg) (price_noise_pct cfg)) (\<lambda>(n, g2).
            let noise = base * n
            in Inr (round2 (max 5 (base + noise)), g2))))"

text \<open>\<^verbatim>\<open>cfg.segment_plan_mix.get(segment, cfg.segment_plan_mix["SMB"])\<close>: the default
  is evaluated first, so a table without the key SMB raises KeyError.\<close>

definition mix_for_segment :: "subs_config \<Rightarrow> string \<Rightarrow> error + (string \<times> real) list" where
  "mix_for_segment cfg seg =
     (case map_of (segment_plan_mix cfg) ''SMB'' of
        None \<Rightarrow> Inl KeyError
      | Some dflt \<Rightarrow>
          (case map_of (segment_plan_mix cfg) seg of None \<Rightarrow> Inr dflt | Some m \<Rightarrow> Inr m))"

text \<open>
  \<^verbatim>\<open>_gen_periods_for_customer(rng, row, cfg)\<close>, with the value of
  \<^verbatim>\<open>pd.Timestamp.today().normalize()\<close> as the argument \<open>today\<close>. In
  \<^verbatim>\<open>wants_second\<close> the draw is the right operand of \<^verbatim>\<open>and\<close>: it is made
  only when the first period was canceled.
\<close>

definition gen_periods_for_customer ::
  "rng \<Rightarrow> customer \<Rightarrow> subs_config \<Rightarrow> date \<Rightarrow> error + (period list \<times> rng)" where
  "gen_periods_for_customer g row cfg today =
     bind_err (rng_integers g (start_delay_days_min cfg) (start_delay_days_max cfg + 1))
       (\<lambda>(start_delay_days, g1).
     let start_1 = add_days start_delay_days (signup_date row) in
     bind_err (rng_integers g1 (min_months cfg) (max_months cfg + 1)) (\<lambda>(months_1, g2).
     let end_1 = add_days (- 1) (add_months months_1 start_1) in
     bind_err (mix_for_segment cfg (segment row)) (\<lambda>mix.
     bind_err (choice_with_mix g2 mix) (\<lambda>(plan_1, g3).
     bind_err (sample_price_mrr g3 plan_1 cfg) (\<lambda>(price_1, g4).
     case rng_random g4 of (u1, g5) \<Rightarrow>
     let still_active = (u1 < 55 / 100 \<and> today < end_1);
         end_date_1 = (if still_active then None else Some end_1);
         status_1 = (if end_date_1 = None then ''active'' else ''canceled'');
         p1 = \<lparr> sub_customer_id = customer_id row, start_date = start_1,
                end_date = end_date_1, plan = plan_1, price_mrr = price_1,
                status = status_1 \<rparr>
     in
     case (if still_active then (False, g5)
           else case rng_random g5 of (u2, g') \<Rightarrow> (u2 < pct_reactivate cfg, g'))
     of (wants_second, g6) \<Rightarrow>
       if \<not> wants_second then Inr ([p1], g6)
       else
         bind_err (rng_integers g6 (reactivation_gap_min cfg) (reactivation_gap_max cfg + 1))
           (\<lambda>(gap_days, g7).
         let start_2 = add_days gap_days end_1 in
         bind_err (rng_integers g7 (min_months cfg) (max_months cfg + 1)) (\<lambda>(months_2, g8).
         let end_2 = add_days (- 1) (add_months months_2 start_2) in
         bind_err (mix_for_segment cfg (segment row)) (\<lambda>mix2.
         bind_err (choice_with_mix g8 mix2) (\<lambda>(plan_2, g9).
         bind_err (sample_price_mrr g9 plan_2 cfg) (\<lambda>(price_2, g10).
         case rng_random g10 of (u3, g11) \<Rightarrow>
         let still_active_2 = (u3 < 65 / 100 \<and> today < end_2);
             end_date_2 = (if still_active_2 then None else Some end_2);
             status_2 = (if end_date_2 = None then ''active'' else ''canceled'');
             p2 = \<lparr> sub_customer_id = customer_id row, start_date = start_2,
                    end_date = end_date_2, plan = plan_2, price_mrr = price_2,
                    status = status_2 \<rparr>
         in Inr ([p1, p2], g11)))))))))))"

text \<open>
  \<^verbatim>\<open>_validate_no_overlap\<close>, the check of one customer's group: the periods sorted
  by start date, \<^verbatim>\<open>prev_end\<close> carried along.
\<close>

fun check_no_overlap :: "date option \<Rightarrow> period list \<Rightarrow> error + unit" where
  "check_no_overlap prev_end [] = Inr ()"
| "check_no_overlap prev_end (r # rs) =
     (if (case prev_end of None \<Rightarrow> False | Some pe \<Rightarrow> start_date r \<le> pe)
      then Inl AssertionError
      else check_no_overlap (if end_date r \<noteq> None then end_date r else prev_end) rs)"

definition validate_no_overlap_group :: "period list \<Rightarrow> error + unit" where
  "validate_no_overlap_group grp = check_no_overlap None (sort_key start_date grp)"


section \<open>Lifecycle event deriver (03_events.py)\<close>

record event =
  ev_customer_id :: string
  event_date :: date
  event_type :: string
  plan_from :: "string option"
  plan_to :: "string option"
  delta_mrr :: real

definition append_event ::
  "event list \<Rightarrow> string \<Rightarrow> date \<Rightarrow> string \<Rightarrow> string option \<Rightarrow> string option \<Rightarrow> real \<Rightarrow> event list" where
  "append_event events cid dt etype pfrom pto delta =
     events @ [\<lparr> ev_customer_id = cid, event_date = dt, event_type = etype,
                 plan_from = pfrom, plan_to = pto, delta_mrr = round2 delta \<rparr>]"

text \<open>The body of \<^verbatim>\<open>for i in range(1, len(s))\<close>: \<open>prev\<close> is \<^verbatim>\<open>s.iloc[i-1]\<close>,
  the head of the list is \<^verbatim>\<open>s.iloc[i]\<close>.\<close>

fun subsequent_periods :: "event list \<Rightarrow> period \<Rightarrow> period list \<Rightarrow> event list" where
  "subsequent_periods out prev [] = out"
| "subsequent_periods out prev (cur # rest) =
     (let cur_start = start_date cur;
          out1 =
            (if (case end_date prev of None \<Rightarrow> False | Some prev_end \<Rightarrow> prev_end < cur_start)
             then append_event out (sub_customer_id cur) cur_start ''reactivation''
                    None (Some (plan cur)) (price_mrr cur)
             else
               (let delta = price_mrr cur - price_mrr prev
                in if 0 < delta
                   then append_event out (sub_customer_id cur) cur_start ''upgrade''
                          (Some (plan prev)) (Some (plan cur)) delta
                   else if delta < 0
                   then append_event out (sub_customer_id cur) cur_start ''downgrade''
                          (Some (plan prev)) (Some (plan cur)) delta
                   else out));
          out2 =
            (case end_date cur of
               None \<Rightarrow> out1
             | Some e \<Rightarrow> append_event out1 (sub_customer_id cur) e ''churn''
                          (Some (plan cur)) None (- price_mrr cur))
      in subsequent_periods out2 cur rest)"

definition build_events_for_customer :: "period list \<Rightarrow> event list" where
  "build_events_for_customer subs_cust =
     (case sort_key start_date subs_cust of
        [] \<Rightarrow> []
      | first # rest \<Rightarrow>
          (let out1 = append_event [] (sub_customer_id first) (start_date first) ''new''
                        None (Some (plan first)) (price_mrr first);
               out2 =
                 (case end_date first of
                    None \<Rightarrow> out1
                  | Some e \<Rightarrow> append_event out1 (sub_customer_id first) e ''churn''
                               (Some (plan first)) None (- price_mrr first))
           in subsequent_periods out2 first rest))"

text \<open>
  The two per-customer acceptance checks of \<^verbatim>\<open>main\<close>, on one customer's events
  in the order of the sorted table. \<^verbatim>\<open>is_monotonic_increasing\<close> accepts equal
  neighbours.
\<close>

definition check_monotonic :: "event list \<Rightarrow> error + unit" where
  "check_monotonic grp = (if sorted (map event_date grp) then Inr () else Inl AssertionError)"

fun rolling_ok :: "real \<Rightarrow> event list \<Rightarrow> error + unit" where
  "rolling_ok mrr [] = Inr ()"
| "rolling_ok mrr (r # rs) =
     (if mrr + delta_mrr r < - (1 / 10 ^ 6) then Inl AssertionError
      else rolling_ok (mrr + delta_mrr r) rs)"

text \<open>One customer's rows of the events table: the derived events sorted by date.\<close>

definition customer_events :: "period list \<Rightarrow> event list" where
  "customer_events subs_cust = sort_key event_date (build_events_for_customer subs_cust)"


section \<open>Invoices and payments: the rows (04_invoices.py, 05_payments.py)\<close>

record invoice =
  invoice_id :: string
  inv_customer_id :: string
  invoice_date :: date
  amount :: real
  is_refund :: bool
  period_start :: date
  period_end :: date

record payment =
  pay_invoice_id :: string
  payment_date :: date
  pay_amount :: real
  payment_method :: string


section \<open>Payment allocator (05_payments.py)\<close>

record payments_config =
  pct_fully_paid :: real
  pct_partial_paid :: real
  pct_unpaid :: real
  partial_parts_probs :: "(nat \<times> real) list"
  lag_min_days :: int
  lag_max_days :: int
  method_probs :: "(string \<times> real) list"
  pct_cash_refund_for_credit_memos :: real

text \<open>The values \<^verbatim>\<open>PaymentsConfig()\<close> is built with.\<close>

definition default_payments_config :: payments_config where
  "default_payments_config =
     \<lparr> pct_fully_paid = 85 / 100,
       pct_partial_paid = 0,
       pct_unpaid = 15 / 100,
       partial_parts_probs = [(2, 75 / 100), (3, 25 / 100)],
       lag_min_days = 30,
       lag_max_days = 30,
       method_probs =
         [(''ACH'', 55 / 100), (''Card'', 20 / 100), (''Wire'', 15 / 100), (''Check'', 10 / 100)],
       pct_cash_refund_for_credit_memos = 0 \<rparr>"

text \<open>
  The partial branch of \<^verbatim>\<open>_emit_payments_for_positive_invoice\<close>: \<open>parts_n\<close>
  uniform weights, normalised, the amount split and rounded, the rounding drift added
  to the last part. With no weight at all \<^verbatim>\<open>parts[-1]\<close> raises IndexError.
  When every weight drawn is 0.0 the quotients are NaN and the script goes on with NaN
  amounts; the reals have no NaN, and the model marks this outcome as \<open>NaNAmount\<close>.
\<close>

definition partial_parts :: "rng \<Rightarrow> real \<Rightarrow> nat \<Rightarrow> error + (real list \<times> rng)" where
  "partial_parts g amt parts_n =
     (case rng_random_n g parts_n of (weights0, g') \<Rightarrow>
        if weights0 = [] then Inl IndexError
        else if sum_list weights0 = 0 then Inl NaNAmount
        else
          (let weights = map (\<lambda>w. w / sum_list weights0) weights0;
               parts = map (\<lambda>w. round2 (amt * w)) weights;
               drift = round2 (amt - sum_list parts)
           in Inr (parts[length parts - 1 := round2 (last parts + drift)], g')))"

text \<open>The body of \<^verbatim>\<open>for p_amt in parts\<close>, the same in both emitting functions:
  a lag in days, the payment date clamped to \<open>today\<close>, and a method.\<close>

definition emit_one ::
  "rng \<Rightarrow> invoice \<Rightarrow> payments_config \<Rightarrow> date \<Rightarrow> real \<Rightarrow> error + (payment \<times> rng)" where
  "emit_one g invo cfg today p_amt =
     bind_err (rng_integers g (lag_min_days cfg) (lag_max_days cfg + 1)) (\<lambda>(lag_days, g1).
     let pay_date = min (add_days lag_days (invoice_date invo)) today in
     bind_err (choice_with_mix g1 (method_probs cfg)) (\<lambda>(method, g2).
       Inr (\<lparr> pay_invoice_id = invoice_id invo, payment_date = pay_date,
              pay_amount = round2 p_amt, payment_method = method \<rparr>, g2)))"

fun emit_parts ::
  "rng \<Rightarrow> invoice \<Rightarrow> payments_config \<Rightarrow> date \<Rightarrow> real list \<Rightarrow> error + (payment list \<times> rng)" where
  "emit_parts g invo cfg today [] = Inr ([], g)"
| "emit_parts g invo cfg today (p_amt # rest) =
     bind_err (emit_one g invo cfg today p_amt) (\<lambda>(p, g1).
     bind_err (emit_parts g1 invo cfg today rest) (\<lambda>(ps, g2). Inr (p # ps, g2)))"

definition emit_payments_for_positive_invoice ::
  "rng \<Rightarrow> invoice \<Rightarrow> payments_config \<Rightarrow> date \<Rightarrow> error + (payment list \<times> rng)" where
  "emit_payments_for_positive_invoice g invo cfg today =
     (let amt = amount invo in
      case rng_random g of (r, g1) \<Rightarrow>
        bind_err
          (if r < pct_fully_paid cfg then Inr ([amt], g1)
           else if r < pct_fully_paid cfg + pct_partial_paid cfg then
             bind_err (choice_with_mix g1 (partial_parts_probs cfg)) (\<lambda>(parts_n, g2).
               partial_parts g2 amt parts_n)
           else Inr ([], g1))
          (\<lambda>(parts, g3). emit_parts g3 invo cfg today parts))"

definition emit_payments_for_negative_invoice ::
  "rng \<Rightarrow> invoice \<Rightarrow> payments_config \<Rightarrow> date \<Rightarrow> error + (payment list \<times> rng)" where
  "emit_payments_for_negative_invoice g invo cfg today =
     (let amt = amount invo in
      case rng_random g of (r, g1) \<Rightarrow>
        if r < pct_cash_refund_for_credit_memos cfg
        then emit_parts g1 invo cfg today [amt]
        else Inr ([], g1))"

text \<open>The reconciliation check of \<^verbatim>\<open>main\<close>, for one invoice and the payments
  merged with it: the row is in \<^verbatim>\<open>overpays\<close>.\<close>

definition overpaid :: "invoice \<Rightarrow> payment list \<Rightarrow> bool" where
  "overpaid invo pays =
     (0 < amount invo \<and> amount invo + 1 / 100 < sum_list (map pay_amount pays))"


section \<open>Invoice generator (04_invoices.py)\<close>

record invoices_config =
  pct_annual_prepay :: real
  refund_rate :: real
  refund_pct_of_invoice :: "real \<times> real"

text \<open>The values \<^verbatim>\<open>InvoicesConfig()\<close> is built with; they are also the class
  attributes \<^verbatim>\<open>InvoicesConfig.refund_rate\<close> and
  \<^verbatim>\<open>InvoicesConfig.refund_pct_of_invoice\<close> that the refund step reads.\<close>

definition default_invoices_config :: invoices_config where
  "default_invoices_config =
     \<lparr> pct_annual_prepay = 8 / 100, refund_rate = 3 / 100,
       refund_pct_of_invoice = (5 / 100, 20 / 100) \<rparr>"

text \<open>The \<^verbatim>\<open>while cur <= end_m\<close> loop of \<^verbatim>\<open>_month_range\<close>.\<close>

function month_range_loop :: "date \<Rightarrow> date \<Rightarrow> date list" where
  "month_range_loop cur end_m =
     (if cur \<le> end_m then cur # month_range_loop (add_months 1 cur) end_m else [])"
  by pat_completeness auto
termination
proof (relation "measure (\<lambda>(cur, end_m).
          if 1 \<le> month cur \<and> month cur \<le> 12
          then nat (year end_m * 12 + 11 - (year cur * 12 + month cur - 1) + 1)
          else nat (year end_m * 12 + 11 - (year cur * 12 + month cur - 1)) + 1)")
  show "wf (measure (\<lambda>(cur, end_m).
          if 1 \<le> month cur \<and> month cur \<le> 12
          then nat (year end_m * 12 + 11 - (year cur * 12 + month cur - 1) + 1)
          else nat (year end_m * 12 + 11 - (year cur * 12 + month cur - 1)) + 1))"
    by simp
next
  fix cur end_m :: date
  assume le: "cur \<le> end_m"
  obtain y m d where cur: "cur = (y, m, d)" by (cases cur) auto
  obtain ye me de where e: "end_m = (ye, me, de)" by (cases end_m) auto
  define y' where "y' = (y * 12 + (m - 1) + 1) div 12"
  define m' where "m' = (y * 12 + (m - 1) + 1) mod 12 + 1"
  define d' where "d' = min d (days_in_month y' m')"
  have nxt: "add_months 1 (y, m, d) = (y', m', d')"
    by (simp add: add_months_def year_def month_def day_def Let_def y'_def m'_def d'_def)
  have idx: "y' * 12 + m' - 1 = y * 12 + m" by (simp add: y'_def m'_def)
  have ok: "1 \<le> m'" "m' \<le> 12" by (simp_all add: m'_def)
  from le have yle: "y \<le> ye" by (auto simp: cur e)
  show "((add_months 1 cur, end_m), (cur, end_m)) \<in> measure (\<lambda>(cur, end_m).
          if 1 \<le> month cur \<and> month cur \<le> 12
          then nat (year end_m * 12 + 11 - (year cur * 12 + month cur - 1) + 1)
          else nat (year end_m * 12 + 11 - (year cur * 12 + month cur - 1)) + 1)"
  proof (cases "1 \<le> m \<and> m \<le> 12")
    case True
    with yle have "y * 12 + m - 1 \<le> ye * 12 + 11" by simp
    with True ok idx show ?thesis
      unfolding cur e nxt by (auto simp add: year_def month_def)
  next
    case False
    with ok idx show ?thesis
      unfolding cur e nxt by (auto simp add: year_def month_def)
  qed
qed

definition month_range :: "date \<Rightarrow> date \<Rightarrow> date list" where
  "month_range start end_d = month_range_loop (replace_day1 start) (replace_day1 end_d)"

definition coverage_window_for_month :: "date \<Rightarrow> date \<times> date" where
  "coverage_window_for_month month_start =
     (month_start, add_days (- 1) (add_months 1 month_start))"

definition bounded :: "date \<Rightarrow> date \<Rightarrow> date \<Rightarrow> date" where
  "bounded a lo hi = max lo (min a hi)"

text \<open>The invoices of one subscription row: the body of \<^verbatim>\<open>for _, r in subs.iterrows()\<close>,
  with \<^verbatim>\<open>end_of_prev_month\<close> as an argument. Rows get their \<open>invoice_id\<close> after
  sorting; until then the field is empty. A period that is skipped draws nothing.\<close>

fun monthly_rows :: "string \<Rightarrow> real \<Rightarrow> date \<Rightarrow> date \<Rightarrow> date list \<Rightarrow> invoice list" where
  "monthly_rows cid price start end_d [] = []"
| "monthly_rows cid price start end_d (m0 # ms) =
     (case coverage_window_for_month m0 of (cov_start, cov_end) \<Rightarrow>
        (let p_start = bounded cov_start start end_d;
             p_end = bounded cov_end start end_d
         in if p_end < p_start then monthly_rows cid price start end_d ms
            else \<lparr> invoice_id = [], inv_customer_id = cid, invoice_date = p_start,
                   amount = round2 price, is_refund = False, period_start = p_start,
                   period_end = p_end \<rparr> # monthly_rows cid price start end_d ms))"

definition invoices_for_period ::
  "rng \<Rightarrow> period \<Rightarrow> invoices_config \<Rightarrow> date \<Rightarrow> invoice list \<times> rng" where
  "invoices_for_period g r cfg eopm =
     (let cid = sub_customer_id r;
          start = start_date r;
          raw_end = (case end_date r of Some e \<Rightarrow> e | None \<Rightarrow> eopm);
          end_d = min raw_end eopm
      in if end_d < start then ([], g)
         else
           (let price = price_mrr r in
            case rng_random g of (u, g1) \<Rightarrow>
              if u < pct_annual_prepay cfg then
                (let covered_end = min (add_days (- 1) (add_months 12 start)) end_d;
                     p_start = start;
                     p_end = covered_end;
                     months_covered =
                       max 1 ((year p_end - year p_start) * 12 + (month p_end - month p_start) + 1);
                     amt = round2 (price * of_int months_covered)
                 in ([\<lparr> invoice_id = [], inv_customer_id = cid, invoice_date = p_start,
                         amount = amt, is_refund = False, period_start = p_start,
                         period_end = p_end \<rparr>], g1))
              else (monthly_rows cid price start end_d (month_range start end_d), g1)))"

fun standard_invoices ::
  "rng \<Rightarrow> period list \<Rightarrow> invoices_config \<Rightarrow> date \<Rightarrow> invoice list \<times> rng" where
  "standard_invoices g [] cfg eopm = ([], g)"
| "standard_invoices g (r # rs) cfg eopm =
     (case invoices_for_period g r cfg eopm of (rows, g1) \<Rightarrow>
        (case standard_invoices g1 rs cfg eopm of (rest, g2) \<Rightarrow> (rows @ rest, g2)))"

text \<open>
  \<^verbatim>\<open>rng.choice(index, size=k, replace=False)\<close>: \<open>k\<close> distinct members of the
  pool, ValueError when the pool is smaller than \<open>k\<close>. Each member is taken from
  what is left of the pool at a position given by one raw draw.
\<close>

fun rng_choice_no_replace :: "rng \<Rightarrow> nat list \<Rightarrow> nat \<Rightarrow> error + (nat list \<times> rng)" where
  "rng_choice_no_replace g pool 0 = Inr ([], g)"
| "rng_choice_no_replace g pool (Suc k) =
     (if pool = [] then Inl ValueError
      else case next_raw g of (r, g1) \<Rightarrow>
        (let j = r mod length pool in
         bind_err (rng_choice_no_replace g1 (take j pool @ drop (Suc j) pool) k)
           (\<lambda>(rest, g2). Inr (pool ! j # rest, g2))))"

text \<open>The refund rows, one for each chosen index: \<^verbatim>\<open>invoices.loc[idx]\<close> raises
  KeyError for an index that is not in the table.\<close>

fun refund_rows :: "rng \<Rightarrow> invoice list \<Rightarrow> nat list \<Rightarrow> error + (invoice list \<times> rng)" where
  "refund_rows g invoices [] = Inr ([], g)"
| "refund_rows g invoices (idx # rest) =
     (if \<not> idx < length invoices then Inl KeyError
      else
        (let base_amount = amount (invoices ! idx) in
         bind_err (rng_uniform g (fst (refund_pct_of_invoice default_invoices_config))
                     (snd (refund_pct_of_invoice default_invoices_config))) (\<lambda>(pct, g1).
         let credit = round2 (- base_amount * pct) in
         bind_err (refund_rows g1 invoices rest) (\<lambda>(more, g2).
           Inr (\<lparr> invoice_id = [], inv_customer_id = inv_customer_id (invoices ! idx),
                  invoice_date = invoice_date (invoices ! idx), amount = credit,
                  is_refund = True, period_start = period_start (invoices ! idx),
                  period_end = period_end (invoices ! idx) \<rparr> # more, g2)))))"

text \<open>\<^verbatim>\<open>str(i).zfill(6)\<close>.\<close>

fun str_nat :: "nat \<Rightarrow> string" where
  "str_nat n =
     (if n < 10 then [''0123456789'' ! n] else str_nat (n div 10) @ [''0123456789'' ! (n mod 10)])"

definition zfill :: "nat \<Rightarrow> string \<Rightarrow> string" where
  "zfill w s = replicate (w - length s) CHR ''0'' @ s"

fun assign_invoice_ids :: "nat \<Rightarrow> invoice list \<Rightarrow> invoice list" where
  "assign_invoice_ids i [] = []"
| "assign_invoice_ids i (r # rs) =
     r \<lparr> invoice_id := CHR ''I'' # zfill 6 (str_nat i) \<rparr> # assign_invoice_ids (Suc i) rs"

text \<open>
  \<^verbatim>\<open>main\<close> without the workbook: the tables read are arguments, the table written
  is the result. An empty list of invoice rows makes a frame without columns, and
  sorting it by column name raises KeyError.
\<close>

definition generate_invoices ::
  "rng \<Rightarrow> customer list \<Rightarrow> period list \<Rightarrow> invoices_config \<Rightarrow> date \<Rightarrow> error + invoice list" where
  "generate_invoices g customers subs cfg today =
     (if customers = [] \<or> subs = [] then Inl ValueError
      else
        (let eopm = end_of_prev_month today in
         case standard_invoices g subs cfg eopm of (invoice_rows, g1) \<Rightarrow>
           (let n_refunds = nat \<lfloor>real (length invoice_rows) * refund_rate default_invoices_config\<rfloor> in
            bind_err
              (if 0 < n_refunds \<and> invoice_rows \<noteq> [] then
                 bind_err (rng_choice_no_replace g1 [0 ..< length invoice_rows] n_refunds)
                   (\<lambda>(refund_indices, g2).
                 bind_err (refund_rows g2 invoice_rows refund_indices) (\<lambda>(refunds, g3).
                   Inr (invoice_rows @ refunds)))
               else Inr invoice_rows)
              (\<lambda>invoices.
                 if invoices = [] then Inl KeyError
                 else
                   (let sorted_rows =
                          sort_key (\<lambda>i. (inv_customer_id i, invoice_date i, amount i)) invoices;
                        with_ids = assign_invoice_ids 1 sorted_rows
                    in if \<not> distinct (map invoice_id with_ids) then Inl AssertionError
                       else if \<not> set (map inv_customer_id with_ids)
                                    \<subseteq> set (map customer_id customers)
                       then Inl AssertionError
                       else if \<not> list_all (\<lambda>i. amount i \<noteq> 0) with_ids then Inl AssertionError
                       else Inr with_ids)))))"


section \<open>Auxiliary notions for the proofs\<close>

text \<open>A date whose month number is a month of the year.\<close>

definition month_ok :: "date \<Rightarrow> bool" where
  "month_ok d = (1 \<le> month d \<and> month d \<le> 12)"

text \<open>The end of a period that starts on \<open>start\<close> and runs for \<open>months\<close> months:
  \<^verbatim>\<open>(start + pd.DateOffset(months=months)) - pd.Timedelta(days=1)\<close>, and the row the
  allocator appends for it.\<close>

definition computed_end :: "date \<Rightarrow> int \<Rightarrow> date" where
  "computed_end start months = add_days (- 1) (add_months months start)"

definition mk_period :: "string \<Rightarrow> date \<Rightarrow> int \<Rightarrow> string \<Rightarrow> real \<Rightarrow> bool \<Rightarrow> period" where
  "mk_period cid start months pl price active =
     \<lparr> sub_customer_id = cid, start_date = start,
       end_date = (if active then None else Some (computed_end start months)),
       plan = pl, price_mrr = price,
       status = (if active then ''active'' else ''canceled'') \<rparr>"


text \<open>Example inputs: the generator whose raw outputs are all zero, positioned at draw
  \<open>n\<close>; a customer of the SMB segment; the mix of that segment in the default
  configuration; and the two periods the allocator gives that customer on 2026-11-04.\<close>

definition zero_rng_at :: "nat \<Rightarrow> rng" where
  "zero_rng_at n = \<lparr> draws = (\<lambda>_. 0), pos = n \<rparr>"

definition example_customer :: customer where
  "example_customer =
     \<lparr> customer_id = ''C0001'', signup_date = (2024, 1, 10), segment = ''SMB'',
       region = ''NA'', acquisition_channel = ''Paid'', cac = 700 \<rparr>"

definition smb_mix :: "(string \<times> real) list" where
  "smb_mix = [(''Starter'', 55 / 100), (''Pro'', 40 / 100), (''Business'', 5 / 100), (''Enterprise'', 0)]"

definition example_periods :: "period list" where
  "example_periods =
     [mk_period ''C0001'' (2024, 1, 10) 3 ''Starter'' 20 False,
      mk_period ''C0001'' (2024, 4, 24) 3 ''Starter'' 20 False]"


text \<open>The shape of what the allocator returns for one customer: one or two periods,
  each with a two-decimal price of at least 5 and an end date, when it has one, after
  its start; when there are two, the first has ended before the second starts.\<close>

definition period_wf :: "period \<Rightarrow> bool" where
  "period_wf p =
     (5 \<le> price_mrr p \<and> round2 (price_mrr p) = price_mrr p \<and>
      (case end_date p of None \<Rightarrow> True | Some e \<Rightarrow> start_date p < e))"

definition allocated :: "period list \<Rightarrow> bool" where
  "allocated ps =
     (case ps of
        [p1] \<Rightarrow> period_wf p1
      | [p1, p2] \<Rightarrow>
          period_wf p1 \<and> period_wf p2 \<and>
          (case end_date p1 of None \<Rightarrow> False | Some e \<Rightarrow> e < start_date p2)
      | _ \<Rightarrow> False)"


text \<open>More example inputs: generators whose raw outputs are all $2^{63}$ (every uniform
  draw is 1/2) and all $2^{64} - 1$ (every uniform draw is just below 1); four invoices;
  a payment configuration that always splits and one that always refunds credit memos
  in cash; the default payment-method mix.\<close>

definition half_rng_at :: "nat \<Rightarrow> rng" where
  "half_rng_at n = \<lparr> draws = (\<lambda>_. 2 ^ 63), pos = n \<rparr>"

definition top_rng_at :: "nat \<Rightarrow> rng" where
  "top_rng_at n = \<lparr> draws = (\<lambda>_. 2 ^ 64 - 1), pos = n \<rparr>"

definition paid_invoice :: invoice where
  "paid_invoice =
     \<lparr> invoice_id = ''I000001'', inv_customer_id = ''C0001'', invoice_date = (2024, 2, 1),
       amount = 100, is_refund = False, period_start = (2024, 2, 1),
       period_end = (2024, 2, 29) \<rparr>"

definition split_invoice :: invoice where
  "split_invoice =
     \<lparr> invoice_id = ''I000002'', inv_customer_id = ''C0001'', invoice_date = (2024, 2, 1),
       amount = 10001 / 100, is_refund = False, period_start = (2024, 2, 1),
       period_end = (2024, 2, 29) \<rparr>"

definition late_invoice :: invoice where
  "late_invoice =
     \<lparr> invoice_id = ''I000003'', inv_customer_id = ''C0001'', invoice_date = (2026, 10, 15),
       amount = 20, is_refund = False, period_start = (2026, 10, 15),
       period_end = (2026, 10, 31) \<rparr>"

definition credit_memo :: invoice where
  "credit_memo =
     \<lparr> invoice_id = ''I000004'', inv_customer_id = ''C0001'', invoice_date = (2026, 10, 15),
       amount = - 2, is_refund = True, period_start = (2026, 10, 15),
       period_end = (2026, 10, 31) \<rparr>"

definition partial_config :: payments_config where
  "partial_config =
     default_payments_config \<lparr> pct_fully_paid := 0, pct_partial_paid := 1, pct_unpaid := 0 \<rparr>"

definition refund_config :: payments_config where
  "refund_config = default_payments_config \<lparr> pct_cash_refund_for_credit_memos := 1 \<rparr>"

definition default_methods :: "(string \<times> real) list" where
  "default_methods =
     [(''ACH'', 55 / 100), (''Card'', 20 / 100), (''Wire'', 15 / 100), (''Check'', 10 / 100)]"


text \<open>An invoice whose issue date and coverage end are not after the billing cutoff.\<close>

definition within_cutoff :: "date \<Rightarrow> invoice \<Rightarrow> bool" where
  "within_cutoff eopm i = (invoice_date i \<le> eopm \<and> period_end i \<le> eopm)"

text \<open>Example inputs of the invoice generator: a period of 50 a month from 2024-02-01
  to 2024-04-30, a period that starts on 2026-11-01, and the rows they and the example
  customer's periods give.\<close>

definition monthly_period :: period where
  "monthly_period = mk_period ''C0001'' (2024, 2, 1) 3 ''Pro'' 50 False"

definition future_period :: period where
  "future_period = mk_period ''C0001'' (2026, 11, 1) 3 ''Pro'' 50 True"

definition annual_row :: "date \<Rightarrow> date \<Rightarrow> invoice" where
  "annual_row s e =
     \<lparr> invoice_id = [], inv_customer_id = ''C0001'', invoice_date = s, amount = 80,
       is_refund = False, period_start = s, period_end = e \<rparr>"

definition monthly_row :: "date \<Rightarrow> date \<Rightarrow> invoice" where
  "monthly_row s e =
     \<lparr> invoice_id = [], inv_customer_id = ''C0001'', invoice_date = s, amount = 50,
       is_refund = False, period_start = s, period_end = e \<rparr>"

definition example_invoice_table :: "invoice list" where
  "example_invoice_table =
     [annual_row (2024, 1, 10) (2024, 4, 9) \<lparr> invoice_id := ''I000001'' \<rparr>,
      annual_row (2024, 4, 24) (2024, 7, 23) \<lparr> invoice_id := ''I000002'' \<rparr>]"


section \<open>Properties of the calendar\<close>

lemma days_in_month_ge: "28 \<le> days_in_month y m"
  by (simp add: days_in_month_def)

lemma next_day_greater: "d < next_day d"
  by (cases d) (auto simp: next_day_def year_def month_def day_def)

lemma prev_day_less: "prev_day d < d"
  by (cases d) (auto simp: prev_day_def year_def month_def day_def)

lemma month_ok_next_day: "month_ok d \<Longrightarrow> month_ok (next_day d)"
  by (cases d) (auto simp: next_day_def month_ok_def year_def month_def day_def)

lemma month_ok_prev_day: "month_ok d \<Longrightarrow> month_ok (prev_day d)"
  by (cases d) (auto simp: prev_day_def month_ok_def year_def month_def day_def)

lemma month_ok_add_months: "month_ok (add_months n d)"
  by (simp add: add_months_def month_ok_def month_def Let_def)

lemma funpow_next_day_ge: "d \<le> (next_day ^^ k) d"
proof (induction k)
  case 0 show ?case by simp
next
  case (Suc k)
  have "(next_day ^^ k) d < next_day ((next_day ^^ k) d)" by (rule next_day_greater)
  with Suc show ?case by simp
qed

lemma funpow_next_day_greater: "0 < k \<Longrightarrow> d < (next_day ^^ k) d"
proof -
  assume "0 < k"
  then obtain j where k: "k = Suc j" by (cases k) auto
  have "d \<le> (next_day ^^ j) d" by (rule funpow_next_day_ge)
  also have "\<dots> < next_day ((next_day ^^ j) d)" by (rule next_day_greater)
  finally show ?thesis by (simp add: k)
qed

lemma add_days_ge: "0 \<le> n \<Longrightarrow> d \<le> add_days n d"
  by (simp add: add_days_def funpow_next_day_ge)

lemma add_days_greater: "1 \<le> n \<Longrightarrow> d < add_days n d"
  by (simp add: add_days_def funpow_next_day_greater)

lemma add_days_minus1: "add_days (- 1) d = prev_day d"
  by (simp add: add_days_def)

lemma funpow_month_ok: "month_ok d \<Longrightarrow> month_ok ((next_day ^^ k) d)"
  by (induction k) (auto simp: month_ok_next_day)

lemma month_ok_add_days: "0 \<le> n \<Longrightarrow> month_ok d \<Longrightarrow> month_ok (add_days n d)"
  by (simp add: add_days_def funpow_month_ok)

lemma computed_end_after_start:
  assumes "month_ok d" "1 \<le> n"
  shows "d < add_days (- 1) (add_months n d)"
proof -
  obtain y m dd where d: "d = (y, m, dd)" by (cases d) auto
  from assms(1) have m: "1 \<le> m" "m \<le> 12" by (auto simp: month_ok_def month_def d)
  define t where "t = y * 12 + (m - 1) + n"
  define y' where "y' = t div 12"
  define m' where "m' = t mod 12 + 1"
  have am: "add_months n d = (y', m', min dd (days_in_month y' m'))"
    by (simp add: add_months_def d year_def month_def day_def Let_def t_def y'_def m'_def)
  have t: "t = y' * 12 + (m' - 1)" by (simp add: y'_def m'_def)
  have m': "1 \<le> m'" "m' \<le> 12" by (auto simp: m'_def) 
  have gt: "y * 12 + (m - 1) < y' * 12 + (m' - 1)" using assms(2) t t_def by linarith
  have lex: "y < y' \<or> (y = y' \<and> m < m')" using gt m m' by auto
  have dim: "28 \<le> days_in_month y' m'" by (rule days_in_month_ge)
  have dim2: "28 \<le> days_in_month y' (m' - 1)" by (rule days_in_month_ge)
  have "(y, m, dd) < prev_day (y', m', min dd (days_in_month y' m'))"
    using lex m m' dim dim2
    by (auto simp: prev_day_def year_def month_def day_def min_def)
  then show ?thesis
    using am by (simp add: add_days_minus1 d)
qed


section \<open>Properties of rounding and of the random source\<close>

lemma bind_err_Inl [simp]: "bind_err (Inl e) f = Inl e"
  by (simp add: bind_err_def)

lemma bind_err_Inr [simp]: "bind_err (Inr x) f = f x"
  by (simp add: bind_err_def)

lemma round_half_even_ge_floor: "\<lfloor>x\<rfloor> \<le> round_half_even x"
  by (simp add: round_half_even_def Let_def)

lemma round_half_even_le: "real_of_int (round_half_even x) \<le> x + 1 / 2"
proof -
  have "real_of_int \<lfloor>x\<rfloor> \<le> x" by simp
  then show ?thesis unfolding round_half_even_def Let_def
    by (simp split: if_splits) linarith
qed

lemma round_half_even_ge: "x - 1 / 2 \<le> real_of_int (round_half_even x)"
proof -
  have "x < real_of_int \<lfloor>x\<rfloor> + 1" by linarith
  then show ?thesis unfolding round_half_even_def Let_def
    by (simp split: if_splits) linarith
qed

lemma round_half_even_of_int: "round_half_even (of_int n) = n"
  by (simp add: round_half_even_def)

lemma round_half_even_minus: "round_half_even (- x) = - round_half_even x"
proof (cases "x = of_int \<lfloor>x\<rfloor>")
  case True
  then obtain n where n: "x = of_int n" ..
  then have "- x = of_int (- n)" by simp
  then have "round_half_even (- x) = - n" by (simp only: round_half_even_of_int)
  then show ?thesis by (simp add: n round_half_even_of_int)
next
  case False
  then have fl: "\<lfloor>- x\<rfloor> = - \<lfloor>x\<rfloor> - 1"
    by (simp add: floor_minus ceiling_altdef)
  define f where "f = \<lfloor>x\<rfloor>"
  define r where "r = x - of_int f"
  have x: "x = of_int f + r" by (simp add: r_def)
  have r: "0 < r" "r < 1" using False by (auto simp: r_def f_def; linarith)+
  have e: "even (- f - 1) \<longleftrightarrow> odd f" by simp
  have r': "- x - of_int (- f - 1) = 1 - r" by (simp add: x)
  show ?thesis
    unfolding round_half_even_def Let_def fl f_def[symmetric] r' r_def[symmetric] 
    using r e by (simp split: if_splits)
qed


lemma round2_minus: "round2 (- x) = - round2 x"
  by (simp add: round2_def round_half_even_minus)

lemma round2_cents: "round2 (of_int n / 100) = of_int n / 100"
  by (simp add: round2_def round_half_even_of_int)

lemma round2_idem: "round2 (round2 x) = round2 x"
  unfolding round2_def[of x] by (rule round2_cents)

lemma round2_upper: "round2 x \<le> x + 1 / 200"
  using round_half_even_le[of "x * 100"] by (simp add: round2_def field_simps)

lemma round2_lower: "x - 1 / 200 \<le> round2 x"
  using round_half_even_ge[of "x * 100"] by (simp add: round2_def field_simps)

lemma round2_ge_cents:
  assumes "of_int k / 100 \<le> x"
  shows "of_int k / 100 \<le> round2 x"
proof -
  from assms have "of_int k \<le> x * 100" by (simp add: field_simps)
  then have "k \<le> \<lfloor>x * 100\<rfloor>" by (simp add: le_floor_iff)
  also have "\<dots> \<le> round_half_even (x * 100)" by (rule round_half_even_ge_floor)
  finally have "real_of_int k \<le> real_of_int (round_half_even (x * 100))" by simp
  then show ?thesis by (simp add: round2_def field_simps)
qed

lemma round2_ge_5: "5 \<le> x \<Longrightarrow> 5 \<le> round2 x"
  using round2_ge_cents[of 500 x] by simp

lemma round2_nonneg: "0 \<le> x \<Longrightarrow> 0 \<le> round2 x"
  using round2_ge_cents[of 0 x] by simp

lemma sample_price_mrr_props:
  assumes "sample_price_mrr g pl cfg = Inr (price, g')"
  shows "5 \<le> price" and "round2 price = price"
proof -
  from assms obtain x where "price = round2 (max 5 x)"
    by (auto simp: sample_price_mrr_def bind_err_def Let_def
             split: option.splits sum.splits prod.splits)
  then show "5 \<le> price" and "round2 price = price"
    by (simp_all add: round2_ge_5 round2_idem)
qed

lemma rng_integers_range:
  assumes "rng_integers g low high = Inr (v, g')"
  shows "low \<le> v" and "v < high"
proof -
  from assms have lt: "low < high" and "\<exists>r. v = low + int r mod (high - low)"
    by (auto simp: rng_integers_def split: if_splits prod.splits)
  then obtain r where v: "v = low + int r mod (high - low)" by blast
  have "0 \<le> int r mod (high - low)" using lt by simp
  moreover have "int r mod (high - low) < high - low" using lt by simp
  ultimately show "low \<le> v" and "v < high" by (simp_all add: v)
qed


section \<open>Properties of the period allocator\<close>

lemma gen_periods_cases:
  assumes "gen_periods_for_customer g row cfg today = Inr (ps, g')"
  obtains
    (one) delay g1 months_1 g2 mix plan_1 g3 price_1 g4 u1 g5 where
      "rng_integers g (start_delay_days_min cfg) (start_delay_days_max cfg + 1) = Inr (delay, g1)"
      "rng_integers g1 (min_months cfg) (max_months cfg + 1) = Inr (months_1, g2)"
      "mix_for_segment cfg (segment row) = Inr mix"
      "choice_with_mix g2 mix = Inr (plan_1, g3)"
      "sample_price_mrr g3 plan_1 cfg = Inr (price_1, g4)"
      "rng_random g4 = (u1, g5)"
      "ps = [mk_period (customer_id row) (add_days delay (signup_date row)) months_1 plan_1 price_1
              (u1 < 55 / 100 \<and> today < computed_end (add_days delay (signup_date row)) months_1)]"
  | (two) delay g1 months_1 g2 mix plan_1 g3 price_1 g4 u1 g5 u2 g6
          gap_days g7 months_2 g8 plan_2 g9 price_2 g10 u3 where
      "rng_integers g (start_delay_days_min cfg) (start_delay_days_max cfg + 1) = Inr (delay, g1)"
      "rng_integers g1 (min_months cfg) (max_months cfg + 1) = Inr (months_1, g2)"
      "mix_for_segment cfg (segment row) = Inr mix"
      "choice_with_mix g2 mix = Inr (plan_1, g3)"
      "sample_price_mrr g3 plan_1 cfg = Inr (price_1, g4)"
      "rng_random g4 = (u1, g5)"
      "\<not> (u1 < 55 / 100 \<and> today < computed_end (add_days delay (signup_date row)) months_1)"
      "rng_random g5 = (u2, g6)"
      "u2 < pct_reactivate cfg"
      "rng_integers g6 (reactivation_gap_min cfg) (reactivation_gap_max cfg + 1) = Inr (gap_days, g7)"
      "rng_integers g7 (min_months cfg) (max_months cfg + 1) = Inr (months_2, g8)"
      "choice_with_mix g8 mix = Inr (plan_2, g9)"
      "sample_price_mrr g9 plan_2 cfg = Inr (price_2, g10)"
      "rng_random g10 = (u3, g')"
      "ps = [mk_period (customer_id row) (add_days delay (signup_date row)) months_1 plan_1 price_1 False,
             mk_period (customer_id row)
               (add_days gap_days (computed_end (add_days delay (signup_date row)) months_1))
               months_2 plan_2 price_2
               (u3 < 65 / 100 \<and> today < computed_end
                  (add_days gap_days (computed_end (add_days delay (signup_date row)) months_1)) months_2)]"
proof -
  note d = gen_periods_for_customer_def
  let ?r1 = "rng_integers g (start_delay_days_min cfg) (start_delay_days_max cfg + 1)"
  from assms obtain delay g1 where a1: "?r1 = Inr (delay, g1)"
    by (cases ?r1) (auto simp: d)
  let ?r2 = "rng_integers g1 (min_months cfg) (max_months cfg + 1)"
  from assms a1 obtain months_1 g2 where a2: "?r2 = Inr (months_1, g2)"
    by (cases ?r2) (auto simp: d)
  let ?r3 = "mix_for_segment cfg (segment row)"
  from assms a1 a2 obtain mix where a3: "?r3 = Inr mix"
    by (cases ?r3) (auto simp: d)
  let ?r4 = "choice_with_mix g2 mix"
  from assms a1 a2 a3 obtain plan_1 g3 where a4: "?r4 = Inr (plan_1, g3)"
    by (cases ?r4) (auto simp: d)
  let ?r5 = "sample_price_mrr g3 plan_1 cfg"
  from assms a1 a2 a3 a4 obtain price_1 g4 where a5: "?r5 = Inr (price_1, g4)"
    by (cases ?r5) (auto simp: d)
  obtain u1 g5 where a6: "rng_random g4 = (u1, g5)" by (cases "rng_random g4") auto
  let ?start_1 = "add_days delay (signup_date row)"
  let ?act = "u1 < 55 / 100 \<and> today < computed_end ?start_1 months_1"
  let ?p1 = "mk_period (customer_id row) ?start_1 months_1 plan_1 price_1 ?act"
  note pre = a1 a2 a3 a4 a5 a6
  show ?thesis
  proof (cases ?act)
    case True
    with assms pre have "ps = [?p1]"
      by (simp add: d mk_period_def computed_end_def Let_def)
    with pre show ?thesis by (rule one)
  next
    case False
    obtain u2 g6 where b1: "rng_random g5 = (u2, g6)" by (cases "rng_random g5") auto
    show ?thesis
    proof (cases "u2 < pct_reactivate cfg")
      case nw: False
      with assms pre False b1 have "ps = [?p1]"
        by (auto simp add: d mk_period_def computed_end_def Let_def)
      with pre show ?thesis by (rule one)
    next
      case w: True
      note pre2 = pre False b1 w
      let ?r6 = "rng_integers g6 (reactivation_gap_min cfg) (reactivation_gap_max cfg + 1)"
      from assms pre2 obtain gap_days g7 where b2: "?r6 = Inr (gap_days, g7)"
        by (cases ?r6) (auto simp: d computed_end_def Let_def)
      let ?r7 = "rng_integers g7 (min_months cfg) (max_months cfg + 1)"
      from assms pre2 b2 obtain months_2 g8 where b3: "?r7 = Inr (months_2, g8)"
        by (cases ?r7) (auto simp: d computed_end_def Let_def)
      let ?r8 = "choice_with_mix g8 mix"
      from assms pre2 b2 b3 obtain plan_2 g9 where b4: "?r8 = Inr (plan_2, g9)"
        by (cases ?r8) (auto simp: d computed_end_def Let_def)
      let ?r9 = "sample_price_mrr g9 plan_2 cfg"
      from assms pre2 b2 b3 b4 obtain price_2 g10 where b5: "?r9 = Inr (price_2, g10)"
        by (cases ?r9) (auto simp: d computed_end_def Let_def)
      obtain u3 g11 where b6: "rng_random g10 = (u3, g11)" by (cases "rng_random g10") auto
      let ?start_2 = "add_days gap_days (computed_end ?start_1 months_1)"
      from assms pre2 b2 b3 b4 b5 b6 have
        res: "ps = [mk_period (customer_id row) ?start_1 months_1 plan_1 price_1 False,
                mk_period (customer_id row) ?start_2 months_2 plan_2 price_2
                  (u3 < 65 / 100 \<and> today < computed_end ?start_2 months_2)] \<and> g' = g11"
        by (auto simp add: d mk_period_def computed_end_def Let_def)
      from a1 a2 a3 a4 a5 a6 False b1 w b2 b3 b4 b5 b6[folded conjunct2[OF res]] conjunct1[OF res]
      show ?thesis by (rule two)
    qed
  qed
qed

lemma ex_next_raw: "next_raw (zero_rng_at n) = (0, zero_rng_at (Suc n))"
  by (simp add: next_raw_def zero_rng_at_def)

lemma ex_random: "m = Suc n \<Longrightarrow> rng_random (zero_rng_at n) = (0, zero_rng_at m)"
  by (simp add: rng_random_def ex_next_raw)

lemma ex_integers: "low < high \<Longrightarrow> m = Suc n \<Longrightarrow>
   rng_integers (zero_rng_at n) low high = Inr (low, zero_rng_at m)"
  by (simp add: rng_integers_def ex_next_raw)

lemma ex_mix: "mix_for_segment default_subs_config ''SMB'' =
   Inr [(''Starter'', 55 / 100), (''Pro'', 40 / 100), (''Business'', 5 / 100), (''Enterprise'', 0)]"
  by (simp add: mix_for_segment_def default_subs_config_def)

lemma ex_choice: "m = Suc n \<Longrightarrow> choice_with_mix (zero_rng_at n)
    [(''Starter'', 55 / 100), (''Pro'', 40 / 100), (''Business'', 5 / 100), (''Enterprise'', 0)]
    = Inr (''Starter'', zero_rng_at m)"
  by (simp add: choice_with_mix_def rng_choice_def choice_checks_def ex_random searchsorted_right_def Let_def)

lemma ex_price: "m = Suc (Suc n) \<Longrightarrow> sample_price_mrr (zero_rng_at n) ''Starter'' default_subs_config
    = Inr (20, zero_rng_at m)"
  by (simp add: sample_price_mrr_def default_subs_config_def rng_uniform_def ex_random round2_def round_half_even_def)

lemma ex_dates:
  "add_days 0 (2024, 1, 10) = (2024, 1, 10)"
  "computed_end (2024, 1, 10) 3 = (2024, 4, 9)"
  "add_days 15 (2024, 4, 9) = (2024, 4, 24)"
  "computed_end (2024, 4, 24) 3 = (2024, 7, 23)"
  by (simp_all add: computed_end_def add_days_def add_months_def next_day_def prev_day_def year_def month_def day_def
      days_in_month_def is_leap_def eval_nat_numeral Let_def)


lemma gen_periods_one_active:
  assumes "rng_integers g (start_delay_days_min cfg) (start_delay_days_max cfg + 1) = Inr (delay, g1)"
    and "rng_integers g1 (min_months cfg) (max_months cfg + 1) = Inr (months_1, g2)"
    and "mix_for_segment cfg (segment row) = Inr mix"
    and "choice_with_mix g2 mix = Inr (plan_1, g3)"
    and "sample_price_mrr g3 plan_1 cfg = Inr (price_1, g4)"
    and "rng_random g4 = (u1, g5)"
    and "u1 < 55 / 100 \<and> today < computed_end (add_days delay (signup_date row)) months_1"
  shows "gen_periods_for_customer g row cfg today =
           Inr ([mk_period (customer_id row) (add_days delay (signup_date row)) months_1
                   plan_1 price_1 True], g5)"
  using assms
  by (simp add: gen_periods_for_customer_def mk_period_def computed_end_def Let_def)

lemma gen_periods_one_canceled:
  assumes "rng_integers g (start_delay_days_min cfg) (start_delay_days_max cfg + 1) = Inr (delay, g1)"
    and "rng_integers g1 (min_months cfg) (max_months cfg + 1) = Inr (months_1, g2)"
    and "mix_for_segment cfg (segment row) = Inr mix"
    and "choice_with_mix g2 mix = Inr (plan_1, g3)"
    and "sample_price_mrr g3 plan_1 cfg = Inr (price_1, g4)"
    and "rng_random g4 = (u1, g5)"
    and "\<not> (u1 < 55 / 100 \<and> today < computed_end (add_days delay (signup_date row)) months_1)"
    and "rng_random g5 = (u2, g6)"
    and "\<not> u2 < pct_reactivate cfg"
  shows "gen_periods_for_customer g row cfg today =
           Inr ([mk_period (customer_id row) (add_days delay (signup_date row)) months_1
                   plan_1 price_1 False], g6)"
  using assms
  by (cases "u1 < 55 / 100")
     (simp_all add: gen_periods_for_customer_def mk_period_def computed_end_def Let_def)

lemma gen_periods_two:
  assumes "rng_integers g (start_delay_days_min cfg) (start_delay_days_max cfg + 1) = Inr (delay, g1)"
    and "rng_integers g1 (min_months cfg) (max_months cfg + 1) = Inr (months_1, g2)"
    and "mix_for_segment cfg (segment row) = Inr mix"
    and "choice_with_mix g2 mix = Inr (plan_1, g3)"
    and "sample_price_mrr g3 plan_1 cfg = Inr (price_1, g4)"
    and "rng_random g4 = (u1, g5)"
    and "\<not> (u1 < 55 / 100 \<and> today < computed_end (add_days delay (signup_date row)) months_1)"
    and "rng_random g5 = (u2, g6)"
    and "u2 < pct_reactivate cfg"
    and "rng_integers g6 (reactivation_gap_min cfg) (reactivation_gap_max cfg + 1) = Inr (gap_days, g7)"
    and "rng_integers g7 (min_months cfg) (max_months cfg + 1) = Inr (months_2, g8)"
    and "choice_with_mix g8 mix = Inr (plan_2, g9)"
    and "sample_price_mrr g9 plan_2 cfg = Inr (price_2, g10)"
    and "rng_random g10 = (u3, g11)"
  shows "gen_periods_for_customer g row cfg today =
           Inr ([mk_period (customer_id row) (add_days delay (signup_date row)) months_1
                   plan_1 price_1 False,
                 mk_period (customer_id row)
                   (add_days gap_days (computed_end (add_days delay (signup_date row)) months_1))
                   months_2 plan_2 price_2
                   (u3 < 65 / 100 \<and> today < computed_end
                      (add_days gap_days (computed_end (add_days delay (signup_date row)) months_1))
                      months_2)], g11)"
  using assms
  by (cases "u1 < 55 / 100")
     (simp_all add: gen_periods_for_customer_def mk_period_def computed_end_def Let_def)

lemma example_cfg:
  "start_delay_days_min default_subs_config = 0" "start_delay_days_max default_subs_config = 10"
  "min_months default_subs_config = 3" "max_months default_subs_config = 18"
  "reactivation_gap_min default_subs_config = 15" "reactivation_gap_max default_subs_config = 60"
  "pct_reactivate default_subs_config = 20 / 100"
  by (simp_all add: default_subs_config_def)

lemma example_row:
  "signup_date example_customer = (2024, 1, 10)" "segment example_customer = ''SMB''"
  "customer_id example_customer = ''C0001''"
  by (simp_all add: example_customer_def)

lemma example_draws:
  shows "rng_integers (zero_rng_at 0) (start_delay_days_min default_subs_config)
           (start_delay_days_max default_subs_config + 1) = Inr (0, zero_rng_at 1)"
    and "rng_integers (zero_rng_at 1) (min_months default_subs_config)
           (max_months default_subs_config + 1) = Inr (3, zero_rng_at 2)"
    and "mix_for_segment default_subs_config (segment example_customer) = Inr smb_mix"
    and "choice_with_mix (zero_rng_at 2) smb_mix = Inr (''Starter'', zero_rng_at 3)"
    and "sample_price_mrr (zero_rng_at 3) ''Starter'' default_subs_config = Inr (20, zero_rng_at 5)"
    and "rng_random (zero_rng_at 5) = (0, zero_rng_at 6)"
    and "\<not> ((0::real) < 55 / 100 \<and>
            (2026, 11, 4) < computed_end (add_days 0 (signup_date example_customer)) 3)"
    and "rng_random (zero_rng_at 6) = (0, zero_rng_at 7)"
    and "(0::real) < pct_reactivate default_subs_config"
    and "rng_integers (zero_rng_at 7) (reactivation_gap_min default_subs_config)
           (reactivation_gap_max default_subs_config + 1) = Inr (15, zero_rng_at 8)"
    and "rng_integers (zero_rng_at 8) (min_months default_subs_config)
           (max_months default_subs_config + 1) = Inr (3, zero_rng_at 9)"
    and "choice_with_mix (zero_rng_at 9) smb_mix = Inr (''Starter'', zero_rng_at 10)"
    and "sample_price_mrr (zero_rng_at 10) ''Starter'' default_subs_config = Inr (20, zero_rng_at 12)"
    and "rng_random (zero_rng_at 12) = (0, zero_rng_at 13)"
proof -
  show "rng_integers (zero_rng_at 0) (start_delay_days_min default_subs_config)
           (start_delay_days_max default_subs_config + 1) = Inr (0, zero_rng_at 1)"
    unfolding example_cfg by (rule ex_integers) simp_all
  show "rng_integers (zero_rng_at 1) (min_months default_subs_config)
           (max_months default_subs_config + 1) = Inr (3, zero_rng_at 2)"
    unfolding example_cfg by (rule ex_integers) simp_all
  show "mix_for_segment default_subs_config (segment example_customer) = Inr smb_mix"
    unfolding example_row smb_mix_def by (rule ex_mix)
  show "choice_with_mix (zero_rng_at 2) smb_mix = Inr (''Starter'', zero_rng_at 3)"
    unfolding smb_mix_def by (rule ex_choice) simp
  show "sample_price_mrr (zero_rng_at 3) ''Starter'' default_subs_config = Inr (20, zero_rng_at 5)"
    by (rule ex_price) simp
  show "rng_random (zero_rng_at 5) = (0, zero_rng_at 6)"
    by (rule ex_random) simp
  show "\<not> ((0::real) < 55 / 100 \<and>
            (2026, 11, 4) < computed_end (add_days 0 (signup_date example_customer)) 3)"
    by (simp add: example_row ex_dates)
  show "rng_random (zero_rng_at 6) = (0, zero_rng_at 7)"
    by (rule ex_random) simp
  show "(0::real) < pct_reactivate default_subs_config"
    by (simp add: example_cfg)
  show "rng_integers (zero_rng_at 7) (reactivation_gap_min default_subs_config)
           (reactivation_gap_max default_subs_config + 1) = Inr (15, zero_rng_at 8)"
    unfolding example_cfg by (rule ex_integers) simp_all
  show "rng_integers (zero_rng_at 8) (min_months default_subs_config)
           (max_months default_subs_config + 1) = Inr (3, zero_rng_at 9)"
    unfolding example_cfg by (rule ex_integers) simp_all
  show "choice_with_mix (zero_rng_at 9) smb_mix = Inr (''Starter'', zero_rng_at 10)"
    unfolding smb_mix_def by (rule ex_choice) simp
  show "sample_price_mrr (zero_rng_at 10) ''Starter'' default_subs_config = Inr (20, zero_rng_at 12)"
    by (rule ex_price) simp
  show "rng_random (zero_rng_at 12) = (0, zero_rng_at 13)"
    by (rule ex_random) simp
qed

lemma example_run:
  "gen_periods_for_customer (zero_rng_at 0) example_customer default_subs_config (2026, 11, 4) =
     Inr (example_periods, zero_rng_at 13)"
  using gen_periods_two[OF example_draws]
  by (simp add: example_row ex_dates example_periods_def)

lemma valid_date_month_ok: "valid_date d \<Longrightarrow> month_ok d"
  by (simp add: valid_date_def month_ok_def)

lemma month_ok_add_days_any: "month_ok d \<Longrightarrow> month_ok (add_days n d)"
proof -
  assume d: "month_ok d"
  have "month_ok ((prev_day ^^ k) d)" for k
    by (induction k) (auto simp: d month_ok_prev_day)
  with d show ?thesis
    by (simp add: add_days_def funpow_month_ok)
qed

lemma month_ok_computed_end: "month_ok (computed_end s m)"
  by (simp add: computed_end_def add_days_minus1 month_ok_prev_day month_ok_add_months)

lemma period_wf_mk_period:
  assumes "month_ok s" "1 \<le> m" "5 \<le> price" "round2 price = price"
  shows "period_wf (mk_period cid s m pl price act)"
  using assms computed_end_after_start[of s m]
  by (simp add: period_wf_def mk_period_def computed_end_def)

lemma mk_period_fields:
  "start_date (mk_period cid s m pl price act) = s"
  "end_date (mk_period cid s m pl price act) = (if act then None else Some (computed_end s m))"
  "price_mrr (mk_period cid s m pl price act) = price"
  "plan (mk_period cid s m pl price act) = pl"
  "sub_customer_id (mk_period cid s m pl price act) = cid"
  "status (mk_period cid s m pl price act) = (if act then ''active'' else ''canceled'')"
  by (simp_all add: mk_period_def)

lemma gen_periods_allocated:
  assumes run: "gen_periods_for_customer g row cfg today = Inr (ps, g')"
    and vd: "valid_date (signup_date row)"
    and mm: "1 \<le> min_months cfg"
    and gap: "1 \<le> reactivation_gap_min cfg"
  shows "allocated ps"
  using run
proof (cases rule: gen_periods_cases)
  case (one delay g1 months_1 g2 mix plan_1 g3 price_1 g4 u1 g5)
  have s1: "month_ok (add_days delay (signup_date row))"
    using vd by (simp add: valid_date_month_ok month_ok_add_days_any)
  have m1: "1 \<le> months_1" using rng_integers_range(1)[OF one(2)] mm by simp
  show ?thesis
    unfolding one(7) allocated_def
    using period_wf_mk_period[OF s1 m1 sample_price_mrr_props[OF one(5)]] by simp
next
  case (two delay g1 months_1 g2 mix plan_1 g3 price_1 g4 u1 g5 u2 g6
          gap_days g7 months_2 g8 plan_2 g9 price_2 g10 u3)
  let ?s1 = "add_days delay (signup_date row)"
  let ?e1 = "computed_end ?s1 months_1"
  let ?s2 = "add_days gap_days ?e1"
  have s1: "month_ok ?s1"
    using vd by (simp add: valid_date_month_ok month_ok_add_days_any)
  have m1: "1 \<le> months_1" using rng_integers_range(1)[OF two(2)] mm by simp
  have s2: "month_ok ?s2"
    by (simp add: month_ok_computed_end month_ok_add_days_any)
  have m2: "1 \<le> months_2" using rng_integers_range(1)[OF two(11)] mm by simp
  have g: "1 \<le> gap_days" using rng_integers_range(1)[OF two(10)] gap by simp
  have lt: "?e1 < ?s2" using g by (rule add_days_greater)
  have w1: "period_wf (mk_period (customer_id row) ?s1 months_1 plan_1 price_1 False)"
    by (rule period_wf_mk_period[OF s1 m1 sample_price_mrr_props[OF two(5)]])
  have w2: "period_wf (mk_period (customer_id row) ?s2 months_2 plan_2 price_2
              (u3 < 65 / 100 \<and> today < computed_end ?s2 months_2))"
    by (rule period_wf_mk_period[OF s2 m2 sample_price_mrr_props[OF two(13)]])
  show ?thesis
    unfolding two(15) allocated_def
    using w1 w2 lt by (simp add: mk_period_fields)
qed


lemma allocated_cases:
  assumes "allocated ps"
  obtains (one) p1 where "ps = [p1]" "period_wf p1"
  | (two) p1 p2 e1 where "ps = [p1, p2]" "period_wf p1" "period_wf p2"
      "end_date p1 = Some e1" "start_date p1 < e1" "e1 < start_date p2"
  using assms
  by (auto simp: allocated_def period_wf_def split: list.splits option.splits)

lemma sort_two_periods:
  "start_date p1 < start_date p2 \<Longrightarrow> sort_key start_date [p1, p2] = [p1, p2]"
  by simp

lemma allocated_sorted: "allocated ps \<Longrightarrow> sort_key start_date ps = ps"
  by (erule allocated_cases) auto


section \<open>Properties of the event deriver on allocated periods\<close>

lemma allocated_events_strict:
  assumes "allocated ps"
  shows "sorted_wrt (<) (map event_date (build_events_for_customer ps))"
  using assms
proof (cases rule: allocated_cases)
  case (one p1)
  then show ?thesis
    by (auto simp: build_events_for_customer_def append_event_def period_wf_def Let_def
             split: option.splits)
next
  case (two p1 p2 e1)
  have lt: "start_date p1 < start_date p2" using two(5,6) by (rule less_trans)
  show ?thesis
    using two lt
    by (auto simp: build_events_for_customer_def append_event_def period_wf_def Let_def
             split: option.splits)
qed

lemma sort_key_strict_id:
  "sorted_wrt (<) (map f xs) \<Longrightarrow> sort_key f xs = xs"
  by (simp add: sort_key_id_if_sorted strict_sorted_imp_sorted)

lemma allocated_customer_events:
  "allocated ps \<Longrightarrow> customer_events ps = build_events_for_customer ps"
  by (simp add: customer_events_def sort_key_strict_id allocated_events_strict)


lemma rolling_ok_prefix:
  assumes "rolling_ok a evs = Inr ()" and "- (1 / 10 ^ 6) \<le> a"
  shows "- (1 / 10 ^ 6) \<le> a + sum_list (map delta_mrr (take n evs))"
  using assms
proof (induction evs arbitrary: a n)
  case Nil
  then show ?case by simp
next
  case (Cons e evs)
  show ?case
  proof (cases n)
    case 0
    with Cons.prems show ?thesis by simp
  next
    case (Suc k)
    from Cons.prems(1) have ok: "\<not> a + delta_mrr e < - (1 / 10 ^ 6)"
      and rest: "rolling_ok (a + delta_mrr e) evs = Inr ()"
      by (auto split: if_splits)
    from ok have "- (1 / 10 ^ 6) \<le> a + delta_mrr e" by simp
    from Cons.IH[OF rest this, of k] show ?thesis by (simp add: Suc add.assoc)
  qed
qed

lemma allocated_rolling_ok:
  assumes "allocated ps"
  shows "rolling_ok 0 (build_events_for_customer ps) = Inr ()"
  using assms
proof (cases rule: allocated_cases)
  case (one p1)
  from one(2) have "0 \<le> round2 (price_mrr p1)"
    by (simp add: period_wf_def)
  then show ?thesis
    using one
    by (auto simp: build_events_for_customer_def append_event_def round2_minus Let_def
             split: option.splits)
next
  case (two p1 p2 e1)
  have lt: "start_date p1 < start_date p2" using two(5,6) by (rule less_trans)
  from two(2,3) have "0 \<le> round2 (price_mrr p1)" "0 \<le> round2 (price_mrr p2)"
    by (simp_all add: period_wf_def)
  then show ?thesis
    using two lt
    by (auto simp: build_events_for_customer_def append_event_def round2_minus Let_def
             split: option.splits)
qed

lemma allocated_total:
  assumes "allocated ps"
  shows "sum_list (map delta_mrr (build_events_for_customer ps)) =
           (case end_date (last ps) of None \<Rightarrow> price_mrr (last ps) | Some e \<Rightarrow> 0)"
  using assms
proof (cases rule: allocated_cases)
  case (one p1)
  then show ?thesis
    by (auto simp: build_events_for_customer_def append_event_def round2_minus period_wf_def Let_def
             split: option.splits)
next
  case (two p1 p2 e1)
  have lt: "start_date p1 < start_date p2" using two(5,6) by (rule less_trans)
  show ?thesis
    using two lt
    by (auto simp: build_events_for_customer_def append_event_def round2_minus period_wf_def Let_def
             split: option.splits)
qed


section \<open>The activity rule (C5)\<close>

text \<open>
  Claim C5. A generated period is active, with no end date, exactly when the activity
  draw is below the bias (0.55 for the first period, 0.65 for the second) and the
  computed end, start + length months - 1 day, is strictly after today. Otherwise it is
  canceled and its end date is that computed end; in particular a favourable draw
  with a computed end that is not in the future gives a canceled period. The draws are
  named by the calls that make them, in the order of the function.
\<close>

theorem active_iff_draw_and_future_end:
  assumes run: "gen_periods_for_customer g row cfg today = Inr (ps, g')"
    and a1: "rng_integers g (start_delay_days_min cfg) (start_delay_days_max cfg + 1) = Inr (delay, g1)"
    and a2: "rng_integers g1 (min_months cfg) (max_months cfg + 1) = Inr (months_1, g2)"
    and a3: "mix_for_segment cfg (segment row) = Inr mix"
    and a4: "choice_with_mix g2 mix = Inr (plan_1, g3)"
    and a5: "sample_price_mrr g3 plan_1 cfg = Inr (price_1, g4)"
    and a6: "rng_random g4 = (u1, g5)"
  shows
    "(let start_1 = add_days delay (signup_date row);
          end_1 = add_days (- 1) (add_months months_1 start_1);
          p1 = ps ! 0
      in ps \<noteq> [] \<and> start_date p1 = start_1 \<and>
         (status p1 = ''active'' \<longleftrightarrow> u1 < 55 / 100 \<and> today < end_1) \<and>
         (end_date p1 = None \<longleftrightarrow> status p1 = ''active'') \<and>
         (status p1 \<noteq> ''active'' \<longrightarrow> status p1 = ''canceled'' \<and> end_date p1 = Some end_1) \<and>
         (\<forall>u2 g6 gap_days g7 months_2 g8 plan_2 g9 price_2 g10 u3 g11.
            \<not> (u1 < 55 / 100 \<and> today < end_1) \<and>
            rng_random g5 = (u2, g6) \<and> u2 < pct_reactivate cfg \<and>
            rng_integers g6 (reactivation_gap_min cfg) (reactivation_gap_max cfg + 1) = Inr (gap_days, g7) \<and>
            rng_integers g7 (min_months cfg) (max_months cfg + 1) = Inr (months_2, g8) \<and>
            choice_with_mix g8 mix = Inr (plan_2, g9) \<and>
            sample_price_mrr g9 plan_2 cfg = Inr (price_2, g10) \<and>
            rng_random g10 = (u3, g11) \<longrightarrow>
            (let start_2 = add_days gap_days end_1;
                 end_2 = add_days (- 1) (add_months months_2 start_2);
                 p2 = ps ! 1
             in length ps = 2 \<and> start_date p2 = start_2 \<and>
                (status p2 = ''active'' \<longleftrightarrow> u3 < 65 / 100 \<and> today < end_2) \<and>
                (end_date p2 = None \<longleftrightarrow> status p2 = ''active'') \<and>
                (status p2 \<noteq> ''active'' \<longrightarrow> status p2 = ''canceled'' \<and> end_date p2 = Some end_2))))"
proof -
  let ?start_1 = "add_days delay (signup_date row)"
  let ?act = "u1 < 55 / 100 \<and> today < computed_end ?start_1 months_1"
  let ?p1 = "mk_period (customer_id row) ?start_1 months_1 plan_1 price_1 ?act"
  from run have hd: "\<exists>rest. ps = ?p1 # rest"
  proof (cases rule: gen_periods_cases)
    case (one d' g1' m' g2' mix' pl' g3' pr' g4' u' g5')
    with a1 a2 a3 a4 a5 a6 show ?thesis by simp
  next
    case (two d' g1' m' g2' mix' pl' g3' pr' g4' u' g5')
    with a1 a2 a3 a4 a5 a6 show ?thesis by auto
  qed
  then obtain rest where ps: "ps = ?p1 # rest" ..
  have first: "ps \<noteq> [] \<and> start_date (ps ! 0) = ?start_1 \<and>
         (status (ps ! 0) = ''active'' \<longleftrightarrow> ?act) \<and>
         (end_date (ps ! 0) = None \<longleftrightarrow> status (ps ! 0) = ''active'') \<and>
         (status (ps ! 0) \<noteq> ''active'' \<longrightarrow>
            status (ps ! 0) = ''canceled'' \<and> end_date (ps ! 0) = Some (computed_end ?start_1 months_1))"
    by (cases "computed_end ?start_1 months_1") (auto simp add: ps mk_period_def)
  have second: "length ps = 2 \<and>
      start_date (ps ! 1) = add_days gap_days (computed_end ?start_1 months_1) \<and>
      (status (ps ! 1) = ''active'' \<longleftrightarrow>
         u3 < 65 / 100 \<and> today < computed_end (add_days gap_days (computed_end ?start_1 months_1)) months_2) \<and>
      (end_date (ps ! 1) = None \<longleftrightarrow> status (ps ! 1) = ''active'') \<and>
      (status (ps ! 1) \<noteq> ''active'' \<longrightarrow> status (ps ! 1) = ''canceled'' \<and>
         end_date (ps ! 1) = Some (computed_end (add_days gap_days (computed_end ?start_1 months_1)) months_2))"
    if "\<not> ?act" "rng_random g5 = (u2, g6)" "u2 < pct_reactivate cfg"
      "rng_integers g6 (reactivation_gap_min cfg) (reactivation_gap_max cfg + 1) = Inr (gap_days, g7)"
      "rng_integers g7 (min_months cfg) (max_months cfg + 1) = Inr (months_2, g8)"
      "choice_with_mix g8 mix = Inr (plan_2, g9)"
      "sample_price_mrr g9 plan_2 cfg = Inr (price_2, g10)"
      "rng_random g10 = (u3, g11)"
    for u2 g6 gap_days g7 months_2 g8 plan_2 g9 price_2 g10 u3 g11
  proof -
    from gen_periods_two[OF a1 a2 a3 a4 a5 a6 that] run
    have "ps = [mk_period (customer_id row) ?start_1 months_1 plan_1 price_1 False,
                 mk_period (customer_id row) (add_days gap_days (computed_end ?start_1 months_1))
                   months_2 plan_2 price_2
                   (u3 < 65 / 100 \<and> today < computed_end
                      (add_days gap_days (computed_end ?start_1 months_1)) months_2)]"
      by simp
    then show ?thesis
      by (cases "computed_end (add_days gap_days (computed_end ?start_1 months_1)) months_2")
         (auto simp add: mk_period_def)
  qed
  show ?thesis
    unfolding Let_def computed_end_def[symmetric]
    using first second by blast
qed


text \<open>The example customer on 2026-11-04 with an all-zero generator: both draws favour
  active, both computed ends are in the past, both periods are canceled.\<close>

theorem active_iff_draw_and_future_end_witness:
  "gen_periods_for_customer (zero_rng_at 0) example_customer default_subs_config (2026, 11, 4)
     = Inr (example_periods, zero_rng_at 13) \<and>
   rng_integers (zero_rng_at 0) (start_delay_days_min default_subs_config)
     (start_delay_days_max default_subs_config + 1) = Inr (0, zero_rng_at 1) \<and>
   rng_integers (zero_rng_at 1) (min_months default_subs_config)
     (max_months default_subs_config + 1) = Inr (3, zero_rng_at 2) \<and>
   mix_for_segment default_subs_config (segment example_customer) = Inr smb_mix \<and>
   choice_with_mix (zero_rng_at 2) smb_mix = Inr (''Starter'', zero_rng_at 3) \<and>
   sample_price_mrr (zero_rng_at 3) ''Starter'' default_subs_config = Inr (20, zero_rng_at 5) \<and>
   rng_random (zero_rng_at 5) = (0, zero_rng_at 6) \<and>
   rng_random (zero_rng_at 6) = (0, zero_rng_at 7) \<and>
   (0::real) < pct_reactivate default_subs_config \<and>
   rng_integers (zero_rng_at 7) (reactivation_gap_min default_subs_config)
     (reactivation_gap_max default_subs_config + 1) = Inr (15, zero_rng_at 8) \<and>
   rng_integers (zero_rng_at 8) (min_months default_subs_config)
     (max_months default_subs_config + 1) = Inr (3, zero_rng_at 9) \<and>
   choice_with_mix (zero_rng_at 9) smb_mix = Inr (''Starter'', zero_rng_at 10) \<and>
   sample_price_mrr (zero_rng_at 10) ''Starter'' default_subs_config = Inr (20, zero_rng_at 12) \<and>
   rng_random (zero_rng_at 12) = (0, zero_rng_at 13) \<and>
   (0::real) < 55 / 100 \<and> \<not> (2026, 11, 4) < ((2024, 4, 9) :: date) \<and>
   status (example_periods ! 0) = ''canceled'' \<and>
   end_date (example_periods ! 0) = Some (2024, 4, 9) \<and>
   length example_periods = 2 \<and>
   status (example_periods ! 1) = ''canceled'' \<and>
   end_date (example_periods ! 1) = Some (2024, 7, 23)"
proof -
  note T = active_iff_draw_and_future_end[OF example_run example_draws(1-6), unfolded Let_def]
  have e1: "add_days (- 1) (add_months 3 (add_days 0 (signup_date example_customer))) = (2024, 4, 9)"
    using ex_dates(2) by (simp add: computed_end_def example_row ex_dates(1))
  have e2: "add_days (- 1) (add_months 3 (add_days 15 (2024, 4, 9))) = (2024, 7, 23)"
    using ex_dates(4) by (simp add: computed_end_def ex_dates(3))
  have past: "\<not> (2026, 11, 4) < ((2024, 4, 9) :: date)" by simp
  from T have na: "status (example_periods ! 0) \<noteq> ''active''"
    by (simp add: e1)
  with T have c1: "status (example_periods ! 0) = ''canceled''"
    and c2: "end_date (example_periods ! 0) = Some (2024, 4, 9)"
    by (simp_all add: e1)
  from T have two: "length example_periods = 2 \<and>
      (status (example_periods ! 1) = ''active'' \<longleftrightarrow> (0::real) < 65 / 100 \<and> (2026, 11, 4) < ((2024, 7, 23) :: date)) \<and>
      (status (example_periods ! 1) \<noteq> ''active'' \<longrightarrow>
         status (example_periods ! 1) = ''canceled'' \<and> end_date (example_periods ! 1) = Some (2024, 7, 23))"
    using example_draws(8-14) past unfolding e1 e2[symmetric] by blast
  then have c3: "length example_periods = 2" "status (example_periods ! 1) = ''canceled''"
    "end_date (example_periods ! 1) = Some (2024, 7, 23)"
    by simp_all
  show ?thesis
    using example_run example_draws c1 c2 c3 past by simp
qed

section \<open>Examples of the allocator and the deriver\<close>

lemma example_hyps:
  "valid_date (signup_date example_customer)"
  "1 \<le> min_months default_subs_config"
  "1 \<le> reactivation_gap_min default_subs_config"
  by (simp_all add: example_row example_cfg valid_date_def year_def month_def day_def
        days_in_month_def)

lemma example_run_active:
  "gen_periods_for_customer (zero_rng_at 0) example_customer default_subs_config (2024, 2, 1) =
     Inr ([mk_period ''C0001'' (2024, 1, 10) 3 ''Starter'' 20 True], zero_rng_at 6)"
proof -
  have act: "(0::real) < 55 / 100 \<and>
      (2024, 2, 1) < computed_end (add_days 0 (signup_date example_customer)) 3"
    by (simp add: example_row ex_dates)
  show ?thesis
    using gen_periods_one_active[OF example_draws(1-6) act]
    by (simp add: example_row ex_dates)
qed

lemma example_events:
  "customer_events example_periods =
     [\<lparr> ev_customer_id = ''C0001'', event_date = (2024, 1, 10), event_type = ''new'',
         plan_from = None, plan_to = Some ''Starter'', delta_mrr = 20 \<rparr>,
      \<lparr> ev_customer_id = ''C0001'', event_date = (2024, 4, 9), event_type = ''churn'',
         plan_from = Some ''Starter'', plan_to = None, delta_mrr = - 20 \<rparr>,
      \<lparr> ev_customer_id = ''C0001'', event_date = (2024, 4, 24), event_type = ''reactivation'',
         plan_from = None, plan_to = Some ''Starter'', delta_mrr = 20 \<rparr>,
      \<lparr> ev_customer_id = ''C0001'', event_date = (2024, 7, 23), event_type = ''churn'',
         plan_from = Some ''Starter'', plan_to = None, delta_mrr = - 20 \<rparr>]"
proof -
  have r: "round2 20 = 20" "round2 (- 20) = - 20"
    using round2_cents[of 2000] round2_cents[of "- 2000"] by simp_all
  show ?thesis
    by (simp add: customer_events_def build_events_for_customer_def example_periods_def
        mk_period_fields append_event_def ex_dates r Let_def)
qed


section \<open>Disjoint periods (C2)\<close>

text \<open>
  Claim C2. For every customer, the periods the allocator generates are temporally
  disjoint: sorted by start date, every period after the first starts strictly after
  the end date of the one before it, which has an end date. The configuration gives
  period lengths of at least one month and reactivation gaps of at least one day, as
  the default one does, and the signup date is a calendar date. The script's own
  check \<^verbatim>\<open>_validate_no_overlap\<close> passes on the customer's periods.
\<close>

theorem periods_disjoint:
  assumes "gen_periods_for_customer g row cfg today = Inr (ps, g')"
    and "valid_date (signup_date row)"
    and "1 \<le> min_months cfg"
    and "1 \<le> reactivation_gap_min cfg"
  shows "(\<forall>i. Suc i < length (sort_key start_date ps) \<longrightarrow>
            (\<exists>e. end_date (sort_key start_date ps ! i) = Some e \<and>
                 e < start_date (sort_key start_date ps ! Suc i))) \<and>
         validate_no_overlap_group ps = Inr ()"
proof -
  have a: "allocated ps" using assms by (rule gen_periods_allocated)
  then have s: "sort_key start_date ps = ps" by (rule allocated_sorted)
  from a show ?thesis
  proof (cases rule: allocated_cases)
    case (one p1)
    then show ?thesis by (simp add: validate_no_overlap_group_def)
  next
    case (two p1 p2 e1)
    have lt: "start_date p1 < start_date p2" using two(5,6) by (rule less_trans)
    have srt: "sort_key start_date ps = [p1, p2]" using s two(1) by simp
    have "\<exists>e. end_date ([p1, p2] ! i) = Some e \<and> e < start_date ([p1, p2] ! Suc i)"
      if "Suc i < length [p1, p2]" for i
    proof -
      from that have "i = 0" by simp
      with two(4,6) show ?thesis by (intro exI[of _ e1]) simp
    qed
    moreover have "validate_no_overlap_group ps = Inr ()"
      using two(4,6) by (simp add: validate_no_overlap_group_def srt not_le)
    ultimately show ?thesis unfolding srt by blast
  qed
qed

text \<open>The example customer: the first period ends on 2024-04-09, the second starts on
  2024-04-24.\<close>

theorem periods_disjoint_witness:
  "gen_periods_for_customer (zero_rng_at 0) example_customer default_subs_config (2026, 11, 4)
     = Inr (example_periods, zero_rng_at 13) \<and>
   valid_date (signup_date example_customer) \<and>
   1 \<le> min_months default_subs_config \<and>
   1 \<le> reactivation_gap_min default_subs_config \<and>
   Suc 0 < length (sort_key start_date example_periods) \<and>
   (\<exists>e. end_date (sort_key start_date example_periods ! 0) = Some e \<and>
        e < start_date (sort_key start_date example_periods ! Suc 0)) \<and>
   validate_no_overlap_group example_periods = Inr ()"
proof -
  note T = periods_disjoint[OF example_run example_hyps]
  have len: "Suc 0 < length (sort_key start_date example_periods)"
    by (simp add: example_periods_def)
  from T len have "\<exists>e. end_date (sort_key start_date example_periods ! 0) = Some e \<and>
        e < start_date (sort_key start_date example_periods ! Suc 0)"
    by blast
  with T len example_run example_hyps show ?thesis by blast
qed


section \<open>Strictly increasing event dates (C7)\<close>

text \<open>
  Claim C7. For every customer, the lifecycle events derived from the customer's
  generated periods are strictly increasing by event date, so no two events of a
  customer share a date; the chronology check of the script passes.
\<close>

theorem events_strictly_increasing:
  assumes "gen_periods_for_customer g row cfg today = Inr (ps, g')"
    and "valid_date (signup_date row)"
    and "1 \<le> min_months cfg"
    and "1 \<le> reactivation_gap_min cfg"
  shows "sorted_wrt (<) (map event_date (customer_events ps)) \<and>
         distinct (map event_date (customer_events ps)) \<and>
         check_monotonic (customer_events ps) = Inr ()"
proof -
  have a: "allocated ps" using assms by (rule gen_periods_allocated)
  then have st: "sorted_wrt (<) (map event_date (customer_events ps))"
    by (simp add: allocated_customer_events allocated_events_strict)
  then have "distinct (map event_date (customer_events ps))"
    by (simp add: strict_sorted_iff)
  moreover from st have "sorted (map event_date (customer_events ps))"
    by (rule strict_sorted_imp_sorted)
  ultimately show ?thesis using st by (simp add: check_monotonic_def)
qed

text \<open>The four events of the example customer and their dates.\<close>

theorem events_strictly_increasing_witness:
  "gen_periods_for_customer (zero_rng_at 0) example_customer default_subs_config (2026, 11, 4)
     = Inr (example_periods, zero_rng_at 13) \<and>
   valid_date (signup_date example_customer) \<and>
   1 \<le> min_months default_subs_config \<and>
   1 \<le> reactivation_gap_min default_subs_config \<and>
   map event_date (customer_events example_periods) =
     [(2024, 1, 10), (2024, 4, 9), (2024, 4, 24), (2024, 7, 23)] \<and>
   sorted_wrt (<) (map event_date (customer_events example_periods)) \<and>
   distinct (map event_date (customer_events example_periods)) \<and>
   check_monotonic (customer_events example_periods) = Inr ()"
  using events_strictly_increasing[OF example_run example_hyps] example_run example_hyps
  by (simp add: example_events)


section \<open>Rolling MRR (C1)\<close>

text \<open>
  Claim C1. For every customer, walking the customer's derived events in date order,
  the running sum of \<open>delta_mrr\<close> is at least -1e-6 after every prefix of the
  sequence; the rolling check of the script passes.
\<close>

theorem rolling_mrr_never_negative:
  assumes "gen_periods_for_customer g row cfg today = Inr (ps, g')"
    and "valid_date (signup_date row)"
    and "1 \<le> min_months cfg"
    and "1 \<le> reactivation_gap_min cfg"
  shows "(\<forall>n. - (1 / 10 ^ 6) \<le> sum_list (map delta_mrr (take n (customer_events ps)))) \<and>
         rolling_ok 0 (customer_events ps) = Inr ()"
proof -
  have a: "allocated ps" using assms by (rule gen_periods_allocated)
  then have ok: "rolling_ok 0 (customer_events ps) = Inr ()"
    by (simp add: allocated_customer_events allocated_rolling_ok)
  have "- (1 / 10 ^ 6) \<le> sum_list (map delta_mrr (take n (customer_events ps)))" for n
    using rolling_ok_prefix[OF ok, of n] by simp
  with ok show ?thesis by blast
qed

text \<open>The example customer: the deltas are 20, -20, 20, -20.\<close>

theorem rolling_mrr_never_negative_witness:
  "gen_periods_for_customer (zero_rng_at 0) example_customer default_subs_config (2026, 11, 4)
     = Inr (example_periods, zero_rng_at 13) \<and>
   valid_date (signup_date example_customer) \<and>
   1 \<le> min_months default_subs_config \<and>
   1 \<le> reactivation_gap_min default_subs_config \<and>
   map delta_mrr (customer_events example_periods) = [20, - 20, 20, - 20] \<and>
   (\<forall>n. - (1 / 10 ^ 6) \<le> sum_list (map delta_mrr (take n (customer_events example_periods)))) \<and>
   rolling_ok 0 (customer_events example_periods) = Inr ()"
  using rolling_mrr_never_negative[OF example_run example_hyps] example_run example_hyps
  by (simp add: example_events)


section \<open>Total of the deltas (C10)\<close>

text \<open>
  Claim C10. For every customer whose periods come from the allocator (at most two,
  disjoint, each end after its start), the sum of \<open>delta_mrr\<close> over all derived
  events is the \<open>price_mrr\<close> of the customer's last period when that period is
  active, and exactly 0 when it is canceled.
\<close>

theorem total_delta_is_final_mrr:
  assumes "gen_periods_for_customer g row cfg today = Inr (ps, g')"
    and "valid_date (signup_date row)"
    and "1 \<le> min_months cfg"
    and "1 \<le> reactivation_gap_min cfg"
  shows "length ps \<le> 2 \<and>
         sum_list (map delta_mrr (customer_events ps)) =
           (case end_date (last (sort_key start_date ps)) of
              None \<Rightarrow> price_mrr (last (sort_key start_date ps))
            | Some e \<Rightarrow> 0)"
proof -
  have a: "allocated ps" using assms by (rule gen_periods_allocated)
  then have len: "length ps \<le> 2" by (rule allocated_cases) simp_all
  have s: "sort_key start_date ps = ps" using a by (rule allocated_sorted)
  show ?thesis
    unfolding s using a by (simp add: len allocated_customer_events allocated_total)
qed

text \<open>The example customer on 2026-11-04 (last period canceled, total 0) and on
  2024-02-01 (one active period of price 20, total 20).\<close>

theorem total_delta_is_final_mrr_witness:
  "gen_periods_for_customer (zero_rng_at 0) example_customer default_subs_config (2026, 11, 4)
     = Inr (example_periods, zero_rng_at 13) \<and>
   gen_periods_for_customer (zero_rng_at 0) example_customer default_subs_config (2024, 2, 1)
     = Inr ([mk_period ''C0001'' (2024, 1, 10) 3 ''Starter'' 20 True], zero_rng_at 6) \<and>
   valid_date (signup_date example_customer) \<and>
   1 \<le> min_months default_subs_config \<and>
   1 \<le> reactivation_gap_min default_subs_config \<and>
   end_date (last (sort_key start_date example_periods)) = Some (2024, 7, 23) \<and>
   sum_list (map delta_mrr (customer_events example_periods)) = 0 \<and>
   end_date (last (sort_key start_date [mk_period ''C0001'' (2024, 1, 10) 3 ''Starter'' 20 True])) = None \<and>
   sum_list (map delta_mrr (customer_events [mk_period ''C0001'' (2024, 1, 10) 3 ''Starter'' 20 True])) = 20"
proof -
  note T1 = total_delta_is_final_mrr[OF example_run example_hyps]
  note T2 = total_delta_is_final_mrr[OF example_run_active example_hyps]
  have e1: "end_date (last (sort_key start_date example_periods)) = Some (2024, 7, 23)"
    by (simp add: example_periods_def mk_period_fields ex_dates)
  have e2: "end_date (last (sort_key start_date [mk_period ''C0001'' (2024, 1, 10) 3 ''Starter'' 20 True])) = None"
    by (simp add: mk_period_fields)
  from T1 e1 have s1: "sum_list (map delta_mrr (customer_events example_periods)) = 0"
    by simp
  from T2 e2 have s2: "sum_list (map delta_mrr (customer_events [mk_period ''C0001'' (2024, 1, 10) 3 ''Starter'' 20 True])) = 20"
    by (simp add: mk_period_fields)
  show ?thesis
    using example_run example_run_active example_hyps e1 e2 s1 s2 by blast
qed

section \<open>Properties of the payment allocator\<close>

lemma cents_iff: "round2 x = x \<longleftrightarrow> (\<exists>k. x = real_of_int k / 100)"
proof
  assume "round2 x = x"
  then have "x = real_of_int (round_half_even (x * 100)) / 100"
    by (simp add: round2_def)
  then show "\<exists>k. x = real_of_int k / 100" ..
next
  assume "\<exists>k. x = real_of_int k / 100"
  then obtain k where k: "x = real_of_int k / 100" ..
  show "round2 x = x" unfolding k by (rule round2_cents)
qed

lemma cents_add: "round2 x = x \<Longrightarrow> round2 y = y \<Longrightarrow> round2 (x + y) = x + y"
proof -
  assume "round2 x = x" "round2 y = y"
  then obtain k l where "x = real_of_int k / 100" "y = real_of_int l / 100"
    by (auto simp: cents_iff)
  then have "x + y = real_of_int (k + l) / 100" by (simp add: add_divide_distrib)
  then show ?thesis unfolding cents_iff ..
qed

lemma cents_diff: "round2 x = x \<Longrightarrow> round2 y = y \<Longrightarrow> round2 (x - y) = x - y"
proof -
  assume "round2 x = x" "round2 y = y"
  then obtain k l where "x = real_of_int k / 100" "y = real_of_int l / 100"
    by (auto simp: cents_iff)
  then have "x - y = real_of_int (k - l) / 100" by (simp add: diff_divide_distrib)
  then show ?thesis unfolding cents_iff ..
qed

lemma cents_sum_list: "list_all (\<lambda>x. round2 x = x) xs \<Longrightarrow> round2 (sum_list xs) = sum_list xs"
proof (induction xs)
  case Nil
  show ?case using round2_cents[of 0] by simp
next
  case (Cons x xs)
  then show ?case by (simp add: cents_add)
qed

lemma sum_list_update_last:
  fixes xs :: "real list"
  assumes "xs \<noteq> []"
  shows "sum_list (xs[length xs - 1 := v]) = sum_list xs - last xs + v"
proof -
  from assms have xs: "xs = butlast xs @ [last xs]" by simp
  have "xs[length xs - 1 := v] = butlast xs @ [v]"
    by (subst xs) (simp add: list_update_append)
  then have "sum_list (xs[length xs - 1 := v]) = sum_list (butlast xs) + v" by simp
  moreover have "sum_list xs = sum_list (butlast xs) + last xs"
    by (subst xs) simp
  ultimately show ?thesis by simp
qed

lemma list_all_update:
  "list_all P xs \<Longrightarrow> P v \<Longrightarrow> list_all P (xs[i := v])"
  by (auto simp: list_all_iff dest: set_update_subset_insert[THEN subsetD])

lemma rng_random_n_length: "length (fst (rng_random_n g n)) = n"
proof (induction n arbitrary: g)
  case 0
  show ?case by simp
next
  case (Suc n)
  obtain u g1 where a: "rng_random g = (u, g1)" by (cases "rng_random g") auto
  obtain us g2 where b: "rng_random_n g1 n = (us, g2)" by (cases "rng_random_n g1 n") auto
  from Suc[of g1] b have "length us = n" by simp
  then show ?case by (simp add: a b)
qed

lemma partial_parts_sum:
  assumes "partial_parts g amt parts_n = Inr (parts, g')"
  shows "map round2 parts = parts"
    and "sum_list parts \<le> amt + 1 / 200"
    and "amt - 1 / 200 \<le> sum_list parts"
    and "round2 amt = amt \<Longrightarrow> sum_list parts = amt"
    and "length parts = parts_n"
proof -
  obtain weights0 g1 where w: "rng_random_n g parts_n = (weights0, g1)"
    by (cases "rng_random_n g parts_n") auto
  define weights where "weights = map (\<lambda>w. w / sum_list weights0) weights0"
  define parts0 where "parts0 = map (\<lambda>w. round2 (amt * w)) weights"
  define drift where "drift = round2 (amt - sum_list parts0)"
  from assms w have ne: "weights0 \<noteq> []"
    and parts: "parts = parts0[length parts0 - 1 := round2 (last parts0 + drift)]"
    by (auto simp: partial_parts_def Let_def weights_def parts0_def drift_def split: if_splits)
  have ne0: "parts0 \<noteq> []" using ne by (simp add: parts0_def weights_def)
  have c0: "list_all (\<lambda>x. round2 x = x) parts0"
    by (simp add: parts0_def list_all_iff round2_idem)
  have cl: "round2 (last parts0) = last parts0"
    using c0 ne0 by (simp add: list_all_iff)
  have cd: "round2 drift = drift" by (simp add: drift_def round2_idem)
  have last_eq: "round2 (last parts0 + drift) = last parts0 + drift"
    using cl cd by (rule cents_add)
  have c: "list_all (\<lambda>x. round2 x = x) parts"
    unfolding parts using c0 by (rule list_all_update) (simp add: round2_idem)
  then show "map round2 parts = parts"
    by (simp add: list_all_iff map_idI)
  have sum: "sum_list parts = sum_list parts0 + drift"
    unfolding parts using sum_list_update_last[OF ne0] by (simp add: last_eq)
  show "sum_list parts \<le> amt + 1 / 200"
    using round2_upper[of "amt - sum_list parts0"] by (simp add: sum drift_def)
  show "amt - 1 / 200 \<le> sum_list parts"
    using round2_lower[of "amt - sum_list parts0"] by (simp add: sum drift_def)
  show "sum_list parts = amt" if "round2 amt = amt"
  proof -
    have "round2 (amt - sum_list parts0) = amt - sum_list parts0"
      using that cents_sum_list[OF c0] by (rule cents_diff)
    then show ?thesis by (simp add: sum drift_def)
  qed
  have "length weights0 = parts_n"
    using rng_random_n_length[of g parts_n] by (simp add: w)
  then show "length parts = parts_n"
    by (simp add: parts parts0_def weights_def)
qed

lemma funpow_prev_day_le: "(prev_day ^^ k) d \<le> d"
proof (induction k)
  case 0 show ?case by simp
next
  case (Suc k)
  have "prev_day ((prev_day ^^ k) d) < (prev_day ^^ k) d" by (rule prev_day_less)
  with Suc show ?case by simp
qed

lemma add_days_mono:
  assumes "a \<le> b"
  shows "add_days a d \<le> add_days b d"
proof -
  consider "0 \<le> a" | "a < 0" "0 \<le> b" | "b < 0" using assms by linarith
  then show ?thesis
  proof cases
    case 1
    then have "nat b = nat (b - a) + nat a" using assms by simp
    then have "(next_day ^^ nat b) d = (next_day ^^ nat (b - a)) ((next_day ^^ nat a) d)"
      by (simp add: funpow_add)
    then show ?thesis
      using 1 assms funpow_next_day_ge[of "(next_day ^^ nat a) d" "nat (b - a)"]
      by (simp add: add_days_def)
  next
    case 2
    have "(prev_day ^^ nat (- a)) d \<le> d" by (rule funpow_prev_day_le)
    also have "d \<le> (next_day ^^ nat b) d" by (rule funpow_next_day_ge)
    finally show ?thesis using 2 by (simp add: add_days_def)
  next
    case 3
    then have "nat (- a) = nat (b - a) + nat (- b)" using assms by simp
    then have "(prev_day ^^ nat (- a)) d = (prev_day ^^ nat (b - a)) ((prev_day ^^ nat (- b)) d)"
      by (simp add: funpow_add)
    then show ?thesis
      using 3 assms funpow_prev_day_le[of "nat (b - a)" "(prev_day ^^ nat (- b)) d"]
      by (simp add: add_days_def)
  qed
qed

lemma emit_one_props:
  assumes "emit_one g invo cfg today p_amt = Inr (p, g')"
  shows "pay_amount p = round2 p_amt"
    and "pay_invoice_id p = invoice_id invo"
    and "\<exists>lag. lag_min_days cfg \<le> lag \<and> lag \<le> lag_max_days cfg \<and>
           payment_date p = min (add_days lag (invoice_date invo)) today"
proof -
  let ?r = "rng_integers g (lag_min_days cfg) (lag_max_days cfg + 1)"
  from assms obtain lag g1 where l: "?r = Inr (lag, g1)"
    by (cases ?r) (auto simp: emit_one_def)
  let ?c = "choice_with_mix g1 (method_probs cfg)"
  from assms l obtain meth g2 where c: "?c = Inr (meth, g2)"
    by (cases ?c) (auto simp: emit_one_def Let_def)
  from assms l c have p: "p = \<lparr> pay_invoice_id = invoice_id invo,
       payment_date = min (add_days lag (invoice_date invo)) today,
       pay_amount = round2 p_amt, payment_method = meth \<rparr>"
    by (simp add: emit_one_def Let_def)
  show "pay_amount p = round2 p_amt" and "pay_invoice_id p = invoice_id invo"
    by (simp_all add: p)
  from rng_integers_range[OF l] have "lag_min_days cfg \<le> lag" "lag \<le> lag_max_days cfg"
    by simp_all
  then show "\<exists>lag. lag_min_days cfg \<le> lag \<and> lag \<le> lag_max_days cfg \<and>
           payment_date p = min (add_days lag (invoice_date invo)) today"
    by (intro exI[of _ lag]) (simp add: p)
qed

lemma emit_parts_ConsE:
  assumes "emit_parts g invo cfg today (a # parts) = Inr (out, g')"
  obtains p g1 ps where "emit_one g invo cfg today a = Inr (p, g1)"
    and "emit_parts g1 invo cfg today parts = Inr (ps, g')" and "out = p # ps"
proof -
  let ?e = "emit_one g invo cfg today a"
  from assms obtain p g1 where e: "?e = Inr (p, g1)"
    by (cases ?e) auto
  let ?r = "emit_parts g1 invo cfg today parts"
  from assms e obtain ps where "?r = Inr (ps, g')" "out = p # ps"
    by (cases ?r) auto
  with e show ?thesis by (rule that)
qed

lemma emit_parts_amounts:
  assumes "emit_parts g invo cfg today parts = Inr (out, g')"
  shows "map pay_amount out = map round2 parts"
  using assms
proof (induction parts arbitrary: g out)
  case Nil
  then show ?case by simp
next
  case (Cons a parts)
  from Cons.prems obtain p g1 ps where e: "emit_one g invo cfg today a = Inr (p, g1)"
    and r: "emit_parts g1 invo cfg today parts = Inr (ps, g')" and out: "out = p # ps"
    by (rule emit_parts_ConsE)
  show ?case using Cons.IH[OF r] emit_one_props(1)[OF e] by (simp add: out)
qed

lemma emit_parts_dates:
  assumes "emit_parts g invo cfg today parts = Inr (out, g')"
  shows "list_all (\<lambda>p. \<exists>lag. lag_min_days cfg \<le> lag \<and> lag \<le> lag_max_days cfg \<and>
           payment_date p = min (add_days lag (invoice_date invo)) today) out"
  using assms
proof (induction parts arbitrary: g out)
  case Nil
  then show ?case by simp
next
  case (Cons a parts)
  from Cons.prems obtain p g1 ps where e: "emit_one g invo cfg today a = Inr (p, g1)"
    and r: "emit_parts g1 invo cfg today parts = Inr (ps, g')" and out: "out = p # ps"
    by (rule emit_parts_ConsE)
  show ?case using Cons.IH[OF r] emit_one_props(3)[OF e] by (simp add: out)
qed

lemma emit_positive_cases:
  assumes "emit_payments_for_positive_invoice g invo cfg today = Inr (out, g')"
    and "rng_random g = (r, g1)"
  obtains (full) "r < pct_fully_paid cfg"
      "emit_parts g1 invo cfg today [amount invo] = Inr (out, g')"
  | (partial) parts_n g2 parts g3 where
      "\<not> r < pct_fully_paid cfg" "r < pct_fully_paid cfg + pct_partial_paid cfg"
      "choice_with_mix g1 (partial_parts_probs cfg) = Inr (parts_n, g2)"
      "partial_parts g2 (amount invo) parts_n = Inr (parts, g3)"
      "emit_parts g3 invo cfg today parts = Inr (out, g')"
  | (unpaid) "\<not> r < pct_fully_paid cfg" "\<not> r < pct_fully_paid cfg + pct_partial_paid cfg"
      "out = []" "g' = g1"
proof -
  note d = emit_payments_for_positive_invoice_def
  consider "r < pct_fully_paid cfg"
    | "\<not> r < pct_fully_paid cfg" "r < pct_fully_paid cfg + pct_partial_paid cfg"
    | "\<not> r < pct_fully_paid cfg" "\<not> r < pct_fully_paid cfg + pct_partial_paid cfg"
    by blast
  then show ?thesis
  proof cases
    case 1
    with assms have "emit_parts g1 invo cfg today [amount invo] = Inr (out, g')"
      by (simp add: d Let_def)
    with 1 show ?thesis by (rule full)
  next
    case 2
    let ?c = "choice_with_mix g1 (partial_parts_probs cfg)"
    from assms 2 obtain parts_n g2 where c: "?c = Inr (parts_n, g2)"
      by (cases ?c) (auto simp: d Let_def)
    let ?p = "partial_parts g2 (amount invo) parts_n"
    from assms 2 c obtain parts g3 where p: "?p = Inr (parts, g3)"
      by (cases ?p) (auto simp: d Let_def)
    from assms 2 c p have "emit_parts g3 invo cfg today parts = Inr (out, g')"
      by (simp add: d Let_def)
    with 2 c p show ?thesis by (rule partial)
  next
    case 3
    with assms have "out = []" "g' = g1" by (simp_all add: d Let_def)
    with 3 show ?thesis by (rule unpaid)
  qed
qed

lemma emit_negative_cases:
  assumes "emit_payments_for_negative_invoice g invo cfg today = Inr (out, g')"
  shows "out = [] \<or> emit_parts (snd (rng_random g)) invo cfg today [amount invo] = Inr (out, g')"
  using assms
  by (cases "rng_random g")
     (auto simp: emit_payments_for_negative_invoice_def Let_def split: if_splits)

lemma clamped_date_bounds:
  assumes "lag_min \<le> lag" and "d = min (add_days lag issue) today"
  shows "d \<le> today" and "min (add_days lag_min issue) today \<le> d"
    and "add_days lag_min issue \<le> today \<Longrightarrow> add_days lag_min issue \<le> d"
proof -
  show "d \<le> today" by (simp add: assms(2))
  have m: "add_days lag_min issue \<le> add_days lag issue"
    using assms(1) by (rule add_days_mono)
  then show "min (add_days lag_min issue) today \<le> d"
    unfolding assms(2) by (meson min.mono order_refl)
  show "add_days lag_min issue \<le> d" if "add_days lag_min issue \<le> today"
    unfolding assms(2) using m that by simp
qed


section \<open>Examples of the payment allocator\<close>

lemma half_next_raw: "next_raw (half_rng_at n) = (2 ^ 63, half_rng_at (Suc n))"
  by (simp add: next_raw_def half_rng_at_def)

lemma half_random: "m = Suc n \<Longrightarrow> rng_random (half_rng_at n) = (1 / 2, half_rng_at m)"
  by (simp add: rng_random_def half_next_raw)

lemma top_random:
  "rng_random (top_rng_at n) = ((2 ^ 53 - 1) / 2 ^ 53, top_rng_at (Suc n))"
  by (simp add: rng_random_def next_raw_def top_rng_at_def)

lemma pay_dates:
  "add_days 30 (2024, 2, 1) = (2024, 3, 2)"
  "add_days 30 (2026, 10, 15) = (2026, 11, 14)"
  by (simp_all add: add_days_def next_day_def year_def month_def day_def
      days_in_month_def is_leap_def eval_nat_numeral)

lemma emit_one_forward:
  assumes "rng_integers g (lag_min_days cfg) (lag_max_days cfg + 1) = Inr (lag, g1)"
    and "choice_with_mix g1 (method_probs cfg) = Inr (method, g2)"
  shows "emit_one g invo cfg today p_amt =
     Inr (\<lparr> pay_invoice_id = invoice_id invo,
            payment_date = min (add_days lag (invoice_date invo)) today,
            pay_amount = round2 p_amt, payment_method = method \<rparr>, g2)"
  using assms by (simp add: emit_one_def)

lemma payments_cfg_fields:
  "lag_min_days default_payments_config = 30" "lag_max_days default_payments_config = 30"
  "method_probs default_payments_config = default_methods"
  "pct_fully_paid default_payments_config = 85 / 100"
  "pct_partial_paid default_payments_config = 0"
  "lag_min_days partial_config = 30" "lag_max_days partial_config = 30"
  "method_probs partial_config = default_methods"
  "pct_fully_paid partial_config = 0"
  "pct_partial_paid partial_config = 1"
  "partial_parts_probs partial_config = [(2, 75 / 100), (3, 25 / 100)]"
  "lag_min_days refund_config = 30" "lag_max_days refund_config = 30"
  "method_probs refund_config = default_methods"
  "pct_cash_refund_for_credit_memos refund_config = 1"
  by (simp_all add: default_payments_config_def partial_config_def refund_config_def
      default_methods_def)

lemma zero_choice_method:
  "m = Suc n \<Longrightarrow> choice_with_mix (zero_rng_at n) default_methods = Inr (''ACH'', zero_rng_at m)"
  by (simp add: default_methods_def choice_with_mix_def rng_choice_def choice_checks_def
      ex_random searchsorted_right_def Let_def)

lemma half_choice_method:
  "m = Suc n \<Longrightarrow> choice_with_mix (half_rng_at n) default_methods = Inr (''ACH'', half_rng_at m)"
  by (simp add: default_methods_def choice_with_mix_def rng_choice_def choice_checks_def
      half_random searchsorted_right_def Let_def)

lemma half_choice_parts:
  "m = Suc n \<Longrightarrow>
   choice_with_mix (half_rng_at n) [(2 :: nat, 75 / 100), (3, 25 / 100)] = Inr (2, half_rng_at m)"
  by (simp add: choice_with_mix_def rng_choice_def choice_checks_def
      half_random searchsorted_right_def Let_def)

lemma half_integers: "m = Suc n \<Longrightarrow>
   rng_integers (half_rng_at n) low (low + 1) = Inr (low, half_rng_at m)"
  by (simp add: rng_integers_def half_next_raw)

lemma zero_emit_one:
  assumes "m = Suc (Suc n)" "lag_min_days cfg = 30" "lag_max_days cfg = 30"
    "method_probs cfg = default_methods"
  shows "emit_one (zero_rng_at n) invo cfg today p_amt =
     Inr (\<lparr> pay_invoice_id = invoice_id invo,
            payment_date = min (add_days 30 (invoice_date invo)) today,
            pay_amount = round2 p_amt, payment_method = ''ACH'' \<rparr>, zero_rng_at m)"
proof (rule emit_one_forward)
  show "rng_integers (zero_rng_at n) (lag_min_days cfg) (lag_max_days cfg + 1)
          = Inr (30, zero_rng_at (Suc n))"
    unfolding assms by (rule ex_integers) simp_all
  show "choice_with_mix (zero_rng_at (Suc n)) (method_probs cfg) = Inr (''ACH'', zero_rng_at m)"
    unfolding assms by (rule zero_choice_method) simp
qed

lemma half_emit_one:
  assumes "m = Suc (Suc n)" "lag_min_days cfg = 30" "lag_max_days cfg = 30"
    "method_probs cfg = default_methods"
  shows "emit_one (half_rng_at n) invo cfg today p_amt =
     Inr (\<lparr> pay_invoice_id = invoice_id invo,
            payment_date = min (add_days 30 (invoice_date invo)) today,
            pay_amount = round2 p_amt, payment_method = ''ACH'' \<rparr>, half_rng_at m)"
proof (rule emit_one_forward)
  show "rng_integers (half_rng_at n) (lag_min_days cfg) (lag_max_days cfg + 1)
          = Inr (30, half_rng_at (Suc n))"
    unfolding assms by (rule half_integers) simp
  show "choice_with_mix (half_rng_at (Suc n)) (method_probs cfg) = Inr (''ACH'', half_rng_at m)"
    unfolding assms by (rule half_choice_method) simp
qed

lemma round2_examples:
  "round2 100 = 100" "round2 20 = 20" "round2 (- 2) = - 2" "round2 50 = 50"
  "round2 (5001 / 100) = 5001 / 100" "round2 (1 / 100) = 1 / 100"
  "round2 (10001 / 100 * (1 / 2)) = 50"
  using round2_cents[of 10000] round2_cents[of 2000] round2_cents[of "- 200"]
    round2_cents[of 5000] round2_cents[of 5001] round2_cents[of 1]
  by (simp_all, simp add: round2_def round_half_even_def)

lemma example_full_payment:
  "emit_payments_for_positive_invoice (zero_rng_at 0) paid_invoice default_payments_config
     (2026, 11, 4) =
   Inr ([\<lparr> pay_invoice_id = ''I000001'', payment_date = (2024, 3, 2), pay_amount = 100,
            payment_method = ''ACH'' \<rparr>], zero_rng_at 3)"
proof -
  have r: "rng_random (zero_rng_at 0) = (0, zero_rng_at (Suc 0))" by (rule ex_random) simp
  have e: "emit_one (zero_rng_at (Suc 0)) paid_invoice default_payments_config (2026, 11, 4) 100 =
     Inr (\<lparr> pay_invoice_id = invoice_id paid_invoice,
            payment_date = min (add_days 30 (invoice_date paid_invoice)) (2026, 11, 4),
            pay_amount = round2 100, payment_method = ''ACH'' \<rparr>, zero_rng_at 3)"
    by (rule zero_emit_one) (simp_all add: payments_cfg_fields)
  have a: "amount paid_invoice = 100" "invoice_id paid_invoice = ''I000001''"
    "invoice_date paid_invoice = (2024, 2, 1)"
    by (simp_all add: paid_invoice_def)
  show ?thesis
    unfolding emit_payments_for_positive_invoice_def
    by (simp add: r payments_cfg_fields a e[unfolded a] pay_dates round2_examples)
qed

lemma example_unpaid:
  "emit_payments_for_positive_invoice (top_rng_at 0) paid_invoice default_payments_config
     (2026, 11, 4) = Inr ([], top_rng_at 1)"
  unfolding emit_payments_for_positive_invoice_def
  by (simp add: top_random payments_cfg_fields)

lemma example_late_payment:
  "emit_payments_for_positive_invoice (zero_rng_at 0) late_invoice default_payments_config
     (2026, 11, 4) =
   Inr ([\<lparr> pay_invoice_id = ''I000003'', payment_date = (2026, 11, 4), pay_amount = 20,
            payment_method = ''ACH'' \<rparr>], zero_rng_at 3)"
proof -
  have r: "rng_random (zero_rng_at 0) = (0, zero_rng_at (Suc 0))" by (rule ex_random) simp
  have e: "emit_one (zero_rng_at (Suc 0)) late_invoice default_payments_config (2026, 11, 4) 20 =
     Inr (\<lparr> pay_invoice_id = invoice_id late_invoice,
            payment_date = min (add_days 30 (invoice_date late_invoice)) (2026, 11, 4),
            pay_amount = round2 20, payment_method = ''ACH'' \<rparr>, zero_rng_at 3)"
    by (rule zero_emit_one) (simp_all add: payments_cfg_fields)
  have a: "amount late_invoice = 20" "invoice_id late_invoice = ''I000003''"
    "invoice_date late_invoice = (2026, 10, 15)"
    by (simp_all add: late_invoice_def)
  show ?thesis
    unfolding emit_payments_for_positive_invoice_def
    by (simp add: r payments_cfg_fields a e[unfolded a] pay_dates round2_examples)
qed

lemma example_cash_refund:
  "emit_payments_for_negative_invoice (zero_rng_at 0) credit_memo refund_config (2026, 11, 4) =
   Inr ([\<lparr> pay_invoice_id = ''I000004'', payment_date = (2026, 11, 4), pay_amount = - 2,
            payment_method = ''ACH'' \<rparr>], zero_rng_at 3)"
proof -
  have r: "rng_random (zero_rng_at 0) = (0, zero_rng_at (Suc 0))" by (rule ex_random) simp
  have e: "emit_one (zero_rng_at (Suc 0)) credit_memo refund_config (2026, 11, 4) (- 2) =
     Inr (\<lparr> pay_invoice_id = invoice_id credit_memo,
            payment_date = min (add_days 30 (invoice_date credit_memo)) (2026, 11, 4),
            pay_amount = round2 (- 2), payment_method = ''ACH'' \<rparr>, zero_rng_at 3)"
    by (rule zero_emit_one) (simp_all add: payments_cfg_fields)
  have a: "amount credit_memo = - 2" "invoice_id credit_memo = ''I000004''"
    "invoice_date credit_memo = (2026, 10, 15)"
    by (simp_all add: credit_memo_def)
  show ?thesis
    unfolding emit_payments_for_negative_invoice_def
    by (simp add: r payments_cfg_fields a e[unfolded a] pay_dates round2_examples)
qed


lemma example_partial_parts:
  "partial_parts (half_rng_at 2) (10001 / 100) 2 = Inr ([50, 5001 / 100], half_rng_at 4)"
proof -
  have n: "rng_random_n (half_rng_at 2) 2 = ([1 / 2, 1 / 2], half_rng_at 4)"
    by (simp add: eval_nat_numeral half_random)
  have r: "round2 (10001 / 200) = 50"
    by (simp add: round2_def round_half_even_def)
  show ?thesis
    unfolding partial_parts_def n
    by (simp add: Let_def r round2_examples del: One_nat_def)
qed

lemma emit_positive_partial_forward:
  assumes "rng_random g = (r, g1)"
    and "\<not> r < pct_fully_paid cfg" "r < pct_fully_paid cfg + pct_partial_paid cfg"
    and "choice_with_mix g1 (partial_parts_probs cfg) = Inr (parts_n, g2)"
    and "partial_parts g2 (amount invo) parts_n = Inr (parts, g3)"
    and "emit_parts g3 invo cfg today parts = Inr (out, g')"
  shows "emit_payments_for_positive_invoice g invo cfg today = Inr (out, g')"
  using assms by (simp add: emit_payments_for_positive_invoice_def Let_def)

lemma example_partial_payment:
  "emit_payments_for_positive_invoice (half_rng_at 0) split_invoice partial_config (2026, 11, 4) =
   Inr ([\<lparr> pay_invoice_id = ''I000002'', payment_date = (2024, 3, 2), pay_amount = 50,
            payment_method = ''ACH'' \<rparr>,
         \<lparr> pay_invoice_id = ''I000002'', payment_date = (2024, 3, 2), pay_amount = 5001 / 100,
            payment_method = ''ACH'' \<rparr>], half_rng_at 8)"
proof -
  have r: "rng_random (half_rng_at 0) = (1 / 2, half_rng_at (Suc 0))" by (rule half_random) simp
  have c: "choice_with_mix (half_rng_at (Suc 0)) (partial_parts_probs partial_config)
             = Inr (2, half_rng_at 2)"
    unfolding payments_cfg_fields by (rule half_choice_parts) simp
  have a: "amount split_invoice = 10001 / 100" "invoice_id split_invoice = ''I000002''"
    "invoice_date split_invoice = (2024, 2, 1)"
    by (simp_all add: split_invoice_def)
  have e1: "emit_one (half_rng_at 4) split_invoice partial_config (2026, 11, 4) 50 =
     Inr (\<lparr> pay_invoice_id = invoice_id split_invoice,
            payment_date = min (add_days 30 (invoice_date split_invoice)) (2026, 11, 4),
            pay_amount = round2 50, payment_method = ''ACH'' \<rparr>, half_rng_at 6)"
    by (rule half_emit_one) (simp_all add: payments_cfg_fields)
  have e2: "emit_one (half_rng_at 6) split_invoice partial_config (2026, 11, 4) (5001 / 100) =
     Inr (\<lparr> pay_invoice_id = invoice_id split_invoice,
            payment_date = min (add_days 30 (invoice_date split_invoice)) (2026, 11, 4),
            pay_amount = round2 (5001 / 100), payment_method = ''ACH'' \<rparr>, half_rng_at 8)"
    by (rule half_emit_one) (simp_all add: payments_cfg_fields)
  have parts: "emit_parts (half_rng_at 4) split_invoice partial_config (2026, 11, 4)
                 [50, 5001 / 100] =
     Inr ([\<lparr> pay_invoice_id = ''I000002'', payment_date = (2024, 3, 2), pay_amount = 50,
            payment_method = ''ACH'' \<rparr>,
         \<lparr> pay_invoice_id = ''I000002'', payment_date = (2024, 3, 2), pay_amount = 5001 / 100,
            payment_method = ''ACH'' \<rparr>], half_rng_at 8)"
    by (simp add: e1 e2 a pay_dates round2_examples)
  have f: "\<not> 1 / 2 < pct_fully_paid partial_config"
    "1 / 2 < pct_fully_paid partial_config + pct_partial_paid partial_config"
    by (simp_all add: payments_cfg_fields)
  have pp: "partial_parts (half_rng_at 2) (amount split_invoice) 2
              = Inr ([50, 5001 / 100], half_rng_at 4)"
    unfolding a by (rule example_partial_parts)
  show ?thesis
    by (rule emit_positive_partial_forward[OF r f c pp parts])
qed


section \<open>No overpayment (C3)\<close>

text \<open>
  Claim C3. For every invoice with a positive amount, the payment amounts emitted
  against it sum to at most the invoice amount plus 0.01, so the invoice is not in
  the reconciliation check's \<^verbatim>\<open>overpays\<close>. The outcome is decided by the first
  draw \<open>r\<close>: fully paid gives one payment of the amount rounded to cents (the amount
  itself when it is a two-decimal value, as every generated invoice amount is);
  partially paid gives parts that sum to the amount within half a cent (exactly, for
  a two-decimal amount); unpaid gives no payment. The statement is about the runs
  that return payments: \<open>Inr\<close>.
\<close>

theorem payments_never_exceed_invoice:
  assumes "emit_payments_for_positive_invoice g invo cfg today = Inr (out, g')"
    and "0 < amount invo"
    and "rng_random g = (r, g1)"
  shows "sum_list (map pay_amount out) \<le> amount invo + 1 / 100 \<and>
         \<not> overpaid invo out \<and>
         (r < pct_fully_paid cfg \<longrightarrow>
            map pay_amount out = [round2 (amount invo)] \<and>
            (round2 (amount invo) = amount invo \<longrightarrow> map pay_amount out = [amount invo])) \<and>
         (\<not> r < pct_fully_paid cfg \<and> r < pct_fully_paid cfg + pct_partial_paid cfg \<longrightarrow>
            \<bar>sum_list (map pay_amount out) - amount invo\<bar> \<le> 1 / 200 \<and>
            (round2 (amount invo) = amount invo \<longrightarrow>
               sum_list (map pay_amount out) = amount invo)) \<and>
         (\<not> r < pct_fully_paid cfg \<and> \<not> r < pct_fully_paid cfg + pct_partial_paid cfg \<longrightarrow>
            out = [])"
  using assms(1,3)
proof (cases rule: emit_positive_cases)
  case full
  have a: "map pay_amount out = [round2 (amount invo)]"
    using emit_parts_amounts[OF full(2)] by simp
  have "round2 (amount invo) \<le> amount invo + 1 / 200" by (rule round2_upper)
  then show ?thesis using full(1) a by (simp add: overpaid_def)
next
  case (partial parts_n g2 parts g3)
  have a: "map pay_amount out = parts"
    using emit_parts_amounts[OF partial(5)] partial_parts_sum(1)[OF partial(4)] by simp
  note b = partial_parts_sum(2,3,4)[OF partial(4)]
  from b(1,2) have "\<bar>sum_list parts - amount invo\<bar> \<le> 1 / 200" by linarith
  then show ?thesis using partial(1,2) a b(1) b(3) by (simp add: overpaid_def)
next
  case unpaid
  then show ?thesis using assms(2) by (simp add: overpaid_def)
qed

text \<open>An invoice of 100.00 fully paid; an invoice of 100.01 split into 50.00 and 50.01,
  the drift of one cent going to the last part; an unpaid invoice.\<close>

theorem payments_never_exceed_invoice_witness:
  "emit_payments_for_positive_invoice (zero_rng_at 0) paid_invoice default_payments_config
     (2026, 11, 4) =
   Inr ([\<lparr> pay_invoice_id = ''I000001'', payment_date = (2024, 3, 2), pay_amount = 100,
            payment_method = ''ACH'' \<rparr>], zero_rng_at 3) \<and>
   0 < amount paid_invoice \<and>
   rng_random (zero_rng_at 0) = (0, zero_rng_at 1) \<and>
   0 < pct_fully_paid default_payments_config \<and>
   round2 (amount paid_invoice) = amount paid_invoice \<and>
   sum_list (map pay_amount [\<lparr> pay_invoice_id = ''I000001'', payment_date = (2024, 3, 2),
      pay_amount = 100, payment_method = ''ACH'' \<rparr>]) \<le> amount paid_invoice + 1 / 100 \<and>
   emit_payments_for_positive_invoice (half_rng_at 0) split_invoice partial_config (2026, 11, 4) =
   Inr ([\<lparr> pay_invoice_id = ''I000002'', payment_date = (2024, 3, 2), pay_amount = 50,
            payment_method = ''ACH'' \<rparr>,
         \<lparr> pay_invoice_id = ''I000002'', payment_date = (2024, 3, 2), pay_amount = 5001 / 100,
            payment_method = ''ACH'' \<rparr>], half_rng_at 8) \<and>
   0 < amount split_invoice \<and>
   rng_random (half_rng_at 0) = (1 / 2, half_rng_at 1) \<and>
   \<not> 1 / 2 < pct_fully_paid partial_config \<and>
   1 / 2 < pct_fully_paid partial_config + pct_partial_paid partial_config \<and>
   round2 (amount split_invoice) = amount split_invoice \<and>
   sum_list (map pay_amount
     [\<lparr> pay_invoice_id = ''I000002'', payment_date = (2024, 3, 2), pay_amount = 50,
            payment_method = ''ACH'' \<rparr>,
      \<lparr> pay_invoice_id = ''I000002'', payment_date = (2024, 3, 2), pay_amount = 5001 / 100,
            payment_method = ''ACH'' \<rparr>]) = amount split_invoice \<and>
   emit_payments_for_positive_invoice (top_rng_at 0) paid_invoice default_payments_config
     (2026, 11, 4) = Inr ([], top_rng_at 1) \<and>
   rng_random (top_rng_at 0) = ((2 ^ 53 - 1) / 2 ^ 53, top_rng_at 1) \<and>
   \<not> (2 ^ 53 - 1) / 2 ^ 53 < pct_fully_paid default_payments_config +
        pct_partial_paid default_payments_config"
proof -
  have r0: "rng_random (zero_rng_at 0) = (0, zero_rng_at 1)" by (rule ex_random) simp
  have r1: "rng_random (half_rng_at 0) = (1 / 2, half_rng_at 1)" by (rule half_random) simp
  have r2: "rng_random (top_rng_at 0) = ((2 ^ 53 - 1) / 2 ^ 53, top_rng_at 1)"
    using top_random[of 0] by simp
  have p0: "0 < amount paid_invoice" "round2 (amount paid_invoice) = amount paid_invoice"
    by (simp_all add: paid_invoice_def round2_examples)
  have p1: "0 < amount split_invoice" "round2 (amount split_invoice) = amount split_invoice"
    using round2_cents[of 10001] by (simp_all add: split_invoice_def)
  note T0 = payments_never_exceed_invoice[OF example_full_payment p0(1) r0]
  note T1 = payments_never_exceed_invoice[OF example_partial_payment p1(1) r1]
  note T2 = payments_never_exceed_invoice[OF example_unpaid p0(1) r2]
  have c: "0 < pct_fully_paid default_payments_config"
    "\<not> 1 / 2 < pct_fully_paid partial_config"
    "1 / 2 < pct_fully_paid partial_config + pct_partial_paid partial_config"
    "\<not> (2 ^ 53 - 1) / 2 ^ 53 < pct_fully_paid default_payments_config +
        pct_partial_paid default_payments_config"
    by (simp_all add: payments_cfg_fields)
  from T0 have s0: "sum_list (map pay_amount [\<lparr> pay_invoice_id = ''I000001'',
      payment_date = (2024, 3, 2), pay_amount = 100, payment_method = ''ACH'' \<rparr>])
      \<le> amount paid_invoice + 1 / 100"
    by blast
  from T1 c(2,3) p1(2) have s1: "sum_list (map pay_amount
     [\<lparr> pay_invoice_id = ''I000002'', payment_date = (2024, 3, 2), pay_amount = 50,
            payment_method = ''ACH'' \<rparr>,
      \<lparr> pay_invoice_id = ''I000002'', payment_date = (2024, 3, 2), pay_amount = 5001 / 100,
            payment_method = ''ACH'' \<rparr>]) = amount split_invoice"
    by blast
  show ?thesis
    using example_full_payment example_partial_payment example_unpaid r0 r1 r2 p0 p1 c s0 s1
    by blast
qed


section \<open>Payment dates (C4)\<close>

text \<open>
  Claim C4 as stated: a payment date is never before the invoice's issue date plus
  \<open>lag_min_days\<close>. It fails: an invoice issued on 2026-10-15 and paid on 2026-11-04
  with the default lag of 30 days gets the payment date 2026-11-04, before
  2026-11-14, because the date is clamped to today.
\<close>

theorem payment_date_clamped_counterexample:
  "emit_payments_for_positive_invoice (zero_rng_at 0) late_invoice default_payments_config
     (2026, 11, 4) =
   Inr ([\<lparr> pay_invoice_id = ''I000003'', payment_date = (2026, 11, 4), pay_amount = 20,
            payment_method = ''ACH'' \<rparr>], zero_rng_at 3) \<and>
   payment_date \<lparr> pay_invoice_id = ''I000003'', payment_date = (2026, 11, 4), pay_amount = 20,
            payment_method = ''ACH'' \<rparr>
     < add_days (lag_min_days default_payments_config) (invoice_date late_invoice)"
  using example_late_payment
  by (simp add: payments_cfg_fields late_invoice_def pay_dates)

text \<open>
  Claim C4, amended. Every payment emitted for a positive or a negative invoice is
  dated min(issue date + lag, today) for a lag between \<open>lag_min_days\<close> and
  \<open>lag_max_days\<close>: it is never after today, never before the earlier of today and
  issue date + \<open>lag_min_days\<close>, and never before issue date + \<open>lag_min_days\<close>
  when that date is not after today.
\<close>

theorem payment_date_bounds:
  "(emit_payments_for_positive_invoice g invo cfg today = Inr (out, g') \<or>
    emit_payments_for_negative_invoice g invo cfg today = Inr (out, g')) \<longrightarrow>
   list_all (\<lambda>p.
      payment_date p \<le> today \<and>
      (\<exists>lag. lag_min_days cfg \<le> lag \<and> lag \<le> lag_max_days cfg \<and>
         payment_date p = min (add_days lag (invoice_date invo)) today) \<and>
      min (add_days (lag_min_days cfg) (invoice_date invo)) today \<le> payment_date p \<and>
      (add_days (lag_min_days cfg) (invoice_date invo) \<le> today \<longrightarrow>
         add_days (lag_min_days cfg) (invoice_date invo) \<le> payment_date p)) out"
proof
  let ?D = "\<lambda>p. \<exists>lag. lag_min_days cfg \<le> lag \<and> lag \<le> lag_max_days cfg \<and>
           payment_date p = min (add_days lag (invoice_date invo)) today"
  let ?P = "\<lambda>p. payment_date p \<le> today \<and> ?D p \<and>
      min (add_days (lag_min_days cfg) (invoice_date invo)) today \<le> payment_date p \<and>
      (add_days (lag_min_days cfg) (invoice_date invo) \<le> today \<longrightarrow>
         add_days (lag_min_days cfg) (invoice_date invo) \<le> payment_date p)"
  assume run: "emit_payments_for_positive_invoice g invo cfg today = Inr (out, g') \<or>
    emit_payments_for_negative_invoice g invo cfg today = Inr (out, g')"
  have imp: "?P p" if "?D p" for p
  proof -
    from that obtain lag where l: "lag_min_days cfg \<le> lag" "lag \<le> lag_max_days cfg"
      "payment_date p = min (add_days lag (invoice_date invo)) today" by blast
    from clamped_date_bounds[OF l(1,3)] that show ?thesis by blast
  qed
  have "list_all ?D out"
    using run
  proof
    assume pos: "emit_payments_for_positive_invoice g invo cfg today = Inr (out, g')"
    obtain r g1 where r: "rng_random g = (r, g1)" by (cases "rng_random g") auto
    from pos r show ?thesis
    proof (cases rule: emit_positive_cases)
      case full
      then show ?thesis by (intro emit_parts_dates)
    next
      case (partial parts_n g2 parts g3)
      then show ?thesis by (intro emit_parts_dates)
    next
      case unpaid
      then show ?thesis by simp
    qed
  next
    assume neg: "emit_payments_for_negative_invoice g invo cfg today = Inr (out, g')"
    from emit_negative_cases[OF neg] show ?thesis
    proof
      assume "out = []" then show ?thesis by simp
    next
      assume "emit_parts (snd (rng_random g)) invo cfg today [amount invo] = Inr (out, g')"
      then show ?thesis by (rule emit_parts_dates)
    qed
  qed
  then show "list_all ?P out"
    unfolding list_all_iff using imp by blast
qed

text \<open>A payment 30 days after the issue date, and a cash refund clamped to today.\<close>

theorem payment_date_bounds_witness:
  "emit_payments_for_positive_invoice (zero_rng_at 0) paid_invoice default_payments_config
     (2026, 11, 4) =
   Inr ([\<lparr> pay_invoice_id = ''I000001'', payment_date = (2024, 3, 2), pay_amount = 100,
            payment_method = ''ACH'' \<rparr>], zero_rng_at 3) \<and>
   add_days (lag_min_days default_payments_config) (invoice_date paid_invoice) = (2024, 3, 2) \<and>
   (2024, 3, 2) \<le> ((2026, 11, 4) :: date) \<and>
   emit_payments_for_negative_invoice (zero_rng_at 0) credit_memo refund_config (2026, 11, 4) =
   Inr ([\<lparr> pay_invoice_id = ''I000004'', payment_date = (2026, 11, 4), pay_amount = - 2,
            payment_method = ''ACH'' \<rparr>], zero_rng_at 3) \<and>
   min (add_days (lag_min_days refund_config) (invoice_date credit_memo)) (2026, 11, 4)
     = (2026, 11, 4) \<and>
   list_all (\<lambda>p. payment_date p \<le> (2026, 11, 4) \<and>
                 add_days (lag_min_days default_payments_config) (invoice_date paid_invoice)
                   \<le> payment_date p)
     [\<lparr> pay_invoice_id = ''I000001'', payment_date = (2024, 3, 2), pay_amount = 100,
            payment_method = ''ACH'' \<rparr>] \<and>
   list_all (\<lambda>p. payment_date p \<le> (2026, 11, 4) \<and>
                 min (add_days (lag_min_days refund_config) (invoice_date credit_memo))
                   (2026, 11, 4) \<le> payment_date p)
     [\<lparr> pay_invoice_id = ''I000004'', payment_date = (2026, 11, 4), pay_amount = - 2,
            payment_method = ''ACH'' \<rparr>]"
proof -
  have d1: "add_days (lag_min_days default_payments_config) (invoice_date paid_invoice)
              = (2024, 3, 2)"
    by (simp add: payments_cfg_fields paid_invoice_def pay_dates)
  have d2: "min (add_days (lag_min_days refund_config) (invoice_date credit_memo)) (2026, 11, 4)
              = (2026, 11, 4)"
    by (simp add: payments_cfg_fields credit_memo_def pay_dates)
  have le: "(2024, 3, 2) \<le> ((2026, 11, 4) :: date)" by simp
  note T1 = payment_date_bounds[of "zero_rng_at 0" paid_invoice default_payments_config
      "(2026, 11, 4)" _ "zero_rng_at 3", rule_format, OF disjI1, OF example_full_payment]
  note T2 = payment_date_bounds[of "zero_rng_at 0" credit_memo refund_config
      "(2026, 11, 4)" _ "zero_rng_at 3", rule_format, OF disjI2, OF example_cash_refund]
  from T1 d1 le have c1: "list_all (\<lambda>p. payment_date p \<le> (2026, 11, 4) \<and>
                 add_days (lag_min_days default_payments_config) (invoice_date paid_invoice)
                   \<le> payment_date p)
     [\<lparr> pay_invoice_id = ''I000001'', payment_date = (2024, 3, 2), pay_amount = 100,
            payment_method = ''ACH'' \<rparr>]"
    by simp
  from T2 have c2: "list_all (\<lambda>p. payment_date p \<le> (2026, 11, 4) \<and>
                 min (add_days (lag_min_days refund_config) (invoice_date credit_memo))
                   (2026, 11, 4) \<le> payment_date p)
     [\<lparr> pay_invoice_id = ''I000004'', payment_date = (2026, 11, 4), pay_amount = - 2,
            payment_method = ''ACH'' \<rparr>]"
    by simp
  show ?thesis
    using example_full_payment example_cash_refund d1 d2 le c1 c2 by blast
qed

section \<open>Properties of the invoice generator\<close>

lemma bounded_le: "lo \<le> hi \<Longrightarrow> bounded a lo hi \<le> hi"
  by (simp add: bounded_def)

lemma bounded_ge: "lo \<le> bounded a lo hi"
  by (simp add: bounded_def)

lemma monthly_rows_within:
  assumes "start \<le> end_d" "end_d \<le> eopm"
  shows "list_all (within_cutoff eopm) (monthly_rows cid price start end_d ms)"
proof (induction ms)
  case Nil
  show ?case by simp
next
  case (Cons m0 ms)
  have "bounded a start end_d \<le> eopm" for a
    using bounded_le[OF assms(1), of a] assms(2) by (rule order_trans)
  with Cons show ?case
    by (simp add: coverage_window_for_month_def Let_def within_cutoff_def)
qed

lemma invoices_for_period_within:
  "list_all (within_cutoff eopm) (fst (invoices_for_period g r cfg eopm))"
proof -
  define raw_end where "raw_end = (case end_date r of Some e \<Rightarrow> e | None \<Rightarrow> eopm)"
  define end_d where "end_d = min raw_end eopm"
  have le: "end_d \<le> eopm" by (simp add: end_d_def)
  show ?thesis
  proof (cases "end_d < start_date r")
    case True
    then show ?thesis
      by (simp add: invoices_for_period_def Let_def end_d_def raw_end_def)
  next
    case False
    then have se: "start_date r \<le> end_d" by simp
    obtain u g1 where u: "rng_random g = (u, g1)" by (cases "rng_random g") auto
    have m: "list_all (within_cutoff eopm)
        (monthly_rows (sub_customer_id r) (price_mrr r) (start_date r) end_d
           (month_range (start_date r) end_d))"
      using se le by (rule monthly_rows_within)
    have a: "start_date r \<le> eopm" using se le by (rule order_trans)
    have c: "min (add_days (- 1) (add_months 12 (start_date r))) end_d \<le> eopm"
      using le by (simp add: min_le_iff_disj)
    show ?thesis
      using False u m a c
      by (simp add: invoices_for_period_def Let_def end_d_def[symmetric] raw_end_def[symmetric]
          within_cutoff_def)
  qed
qed

lemma invoices_for_period_skipped:
  assumes "eopm < start_date r"
  shows "invoices_for_period g r cfg eopm = ([], g)"
proof -
  have "min (case end_date r of Some e \<Rightarrow> e | None \<Rightarrow> eopm) eopm < start_date r"
    using assms by (simp add: min_less_iff_disj)
  then show ?thesis by (simp add: invoices_for_period_def Let_def)
qed

lemma standard_invoices_within:
  "list_all (within_cutoff eopm) (fst (standard_invoices g subs cfg eopm))"
proof (induction subs arbitrary: g)
  case Nil
  show ?case by simp
next
  case (Cons r rs)
  obtain rows g1 where a: "invoices_for_period g r cfg eopm = (rows, g1)"
    by (cases "invoices_for_period g r cfg eopm") auto
  obtain rest g2 where b: "standard_invoices g1 rs cfg eopm = (rest, g2)"
    by (cases "standard_invoices g1 rs cfg eopm") auto
  from invoices_for_period_within[of eopm g r cfg] a
  have "list_all (within_cutoff eopm) rows" by simp
  moreover from Cons[of g1] b have "list_all (within_cutoff eopm) rest" by simp
  ultimately show ?case by (simp add: a b)
qed

lemma refund_rows_within:
  assumes "refund_rows g invoices idxs = Inr (out, g')"
    and "list_all (within_cutoff eopm) invoices"
  shows "list_all (within_cutoff eopm) out"
  using assms(1)
proof (induction idxs arbitrary: g out)
  case Nil
  then show ?case by simp
next
  case (Cons idx rest)
  from Cons.prems have i: "idx < length invoices" by (auto split: if_splits)
  let ?u = "rng_uniform g (fst (refund_pct_of_invoice default_invoices_config))
                     (snd (refund_pct_of_invoice default_invoices_config))"
  from Cons.prems i obtain pct g1 where u: "?u = Inr (pct, g1)"
    by (cases ?u) (auto simp: Let_def)
  let ?r = "refund_rows g1 invoices rest"
  from Cons.prems i u obtain more where r: "?r = Inr (more, g')"
    and out: "out = \<lparr> invoice_id = [], inv_customer_id = inv_customer_id (invoices ! idx),
                  invoice_date = invoice_date (invoices ! idx),
                  amount = round2 (- amount (invoices ! idx) * pct),
                  is_refund = True, period_start = period_start (invoices ! idx),
                  period_end = period_end (invoices ! idx) \<rparr> # more"
    by (cases ?r) (auto simp: Let_def)
  have "within_cutoff eopm (invoices ! idx)"
    using assms(2) i by (simp add: list_all_length)
  with Cons.IH[OF r] show ?case
    by (simp add: out within_cutoff_def)
qed

lemma assign_invoice_ids_within:
  "list_all (within_cutoff eopm) (assign_invoice_ids i rs) = list_all (within_cutoff eopm) rs"
  by (induction rs arbitrary: i) (simp_all add: within_cutoff_def)

lemma sort_key_list_all: "list_all P (sort_key f xs) = list_all P xs"
  by (simp add: list_all_iff)


lemma generate_invoices_within:
  assumes "generate_invoices g customers subs cfg today = Inr invoices"
  shows "list_all (within_cutoff (end_of_prev_month today)) invoices"
proof -
  let ?eopm = "end_of_prev_month today"
  obtain rows g1 where st: "standard_invoices g subs cfg ?eopm = (rows, g1)"
    by (cases "standard_invoices g subs cfg ?eopm") auto
  have rows: "list_all (within_cutoff ?eopm) rows"
    using standard_invoices_within[of ?eopm g subs cfg] by (simp add: st)
  define n where "n = nat \<lfloor>real (length rows) * refund_rate default_invoices_config\<rfloor>"
  let ?all = "if 0 < n \<and> rows \<noteq> [] then
                 bind_err (rng_choice_no_replace g1 [0 ..< length rows] n)
                   (\<lambda>(refund_indices, g2).
                 bind_err (refund_rows g2 rows refund_indices) (\<lambda>(refunds, g3).
                   Inr (rows @ refunds)))
               else Inr rows"
  note d = assms[unfolded generate_invoices_def Let_def st prod.case, folded n_def]
  from d obtain every where ev: "?all = Inr every"
    and res: "invoices = assign_invoice_ids 1
                (sort_key (\<lambda>i. (inv_customer_id i, invoice_date i, amount i)) every)"
    by (cases ?all) (auto split: if_splits)
  have "list_all (within_cutoff ?eopm) every"
  proof (cases "0 < n \<and> rows \<noteq> []")
    case False
    with ev rows show ?thesis by auto
  next
    case True
    let ?c = "rng_choice_no_replace g1 [0 ..< length rows] n"
    from ev True obtain idxs g2 where c: "?c = Inr (idxs, g2)"
      by (cases ?c) auto
    let ?r = "refund_rows g2 rows idxs"
    from ev True c obtain refunds g3 where r: "?r = Inr (refunds, g3)"
      and e: "every = rows @ refunds"
      by (cases ?r) auto
    from refund_rows_within[OF r rows] rows show ?thesis by (simp add: e)
  qed
  then show ?thesis
    by (simp add: res assign_invoice_ids_within sort_key_list_all)
qed


section \<open>Examples of the invoice generator\<close>

lemma id_examples:
  "CHR ''I'' # zfill 6 (str_nat (Suc 0)) = ''I000001''"
  "CHR ''I'' # zfill 6 (str_nat (Suc (Suc 0))) = ''I000002''"
  "CHR ''I'' # zfill 6 (str_nat (Suc (Suc (Suc 0)))) = ''I000003''"
proof -
  have z: "zfill 6 [c] = [CHR ''0'', CHR ''0'', CHR ''0'', CHR ''0'', CHR ''0'', c]" for c
    by (simp add: zfill_def numeral_eq_Suc)
  have s: "str_nat (Suc 0) = ''1''" "str_nat (Suc (Suc 0)) = ''2''"
    "str_nat (Suc (Suc (Suc 0))) = ''3''"
    by simp_all
  show "CHR ''I'' # zfill 6 (str_nat (Suc 0)) = ''I000001''"
    "CHR ''I'' # zfill 6 (str_nat (Suc (Suc 0))) = ''I000002''"
    "CHR ''I'' # zfill 6 (str_nat (Suc (Suc (Suc 0)))) = ''I000003''"
    unfolding s z by simp_all
qed

lemma t4: "month_range (2024, 2, 1) (2024, 4, 30) = [(2024, 2, 1), (2024, 3, 1), (2024, 4, 1)]"
  by (simp add: month_range_def replace_day1_def add_months_def year_def month_def day_def days_in_month_def Let_def)


lemma cutoff_example: "end_of_prev_month (2026, 11, 4) = (2026, 10, 31)"
  by (simp add: end_of_prev_month_def replace_day1_def add_days_def prev_day_def year_def
      month_def day_def days_in_month_def)

lemma invoice_dates:
  "add_days (- 1) (add_months 12 (2024, 1, 10)) = (2025, 1, 9)"
  "add_days (- 1) (add_months 12 (2024, 4, 24)) = (2025, 4, 23)"
  "computed_end (2024, 2, 1) 3 = (2024, 4, 30)"
  "add_days (- 1) (add_months 1 (2024, 2, 1)) = (2024, 2, 29)"
  "add_days (- 1) (add_months 1 (2024, 3, 1)) = (2024, 3, 31)"
  "add_days (- 1) (add_months 1 (2024, 4, 1)) = (2024, 4, 30)"
  by (simp_all add: computed_end_def add_days_def add_months_def prev_day_def year_def month_def
      day_def days_in_month_def is_leap_def Let_def)

lemma example_annual_1:
  "invoices_for_period (zero_rng_at 0) (mk_period ''C0001'' (2024, 1, 10) 3 ''Starter'' 20 False)
     default_invoices_config (2026, 10, 31)
   = ([annual_row (2024, 1, 10) (2024, 4, 9)], zero_rng_at (Suc 0))"
proof -
  have r: "rng_random (zero_rng_at 0) = (0, zero_rng_at (Suc 0))" by (rule ex_random) simp
  have a: "round2 80 = 80" using round2_cents[of 8000] by simp
  show ?thesis
    unfolding invoices_for_period_def mk_period_fields
    by (simp add: ex_dates r default_invoices_config_def invoice_dates Let_def year_def month_def
        a annual_row_def)
qed

lemma example_annual_2:
  "invoices_for_period (zero_rng_at (Suc 0)) (mk_period ''C0001'' (2024, 4, 24) 3 ''Starter'' 20 False)
     default_invoices_config (2026, 10, 31)
   = ([annual_row (2024, 4, 24) (2024, 7, 23)], zero_rng_at (Suc (Suc 0)))"
proof -
  have r: "rng_random (zero_rng_at (Suc 0)) = (0, zero_rng_at (Suc (Suc 0)))"
    by (rule ex_random) simp
  have a: "round2 80 = 80" using round2_cents[of 8000] by simp
  show ?thesis
    unfolding invoices_for_period_def mk_period_fields
    by (simp add: ex_dates r default_invoices_config_def invoice_dates Let_def year_def month_def
        a annual_row_def)
qed

lemma example_standard:
  "standard_invoices (zero_rng_at 0) example_periods default_invoices_config (2026, 10, 31)
   = ([annual_row (2024, 1, 10) (2024, 4, 9), annual_row (2024, 4, 24) (2024, 7, 23)],
      zero_rng_at (Suc (Suc 0)))"
  by (simp add: example_periods_def example_annual_1 example_annual_2)

lemma generate_invoices_no_refund:
  assumes "customers \<noteq> []" "subs \<noteq> []"
    and "standard_invoices g subs cfg (end_of_prev_month today) = (rows, g1)"
    and "nat \<lfloor>real (length rows) * refund_rate default_invoices_config\<rfloor> = 0"
    and "rows \<noteq> []"
    and "assign_invoice_ids 1
           (sort_key (\<lambda>i. (inv_customer_id i, invoice_date i, amount i)) rows) = table"
    and "distinct (map invoice_id table)"
    and "set (map inv_customer_id table) \<subseteq> set (map customer_id customers)"
    and "list_all (\<lambda>i. amount i \<noteq> 0) table"
  shows "generate_invoices g customers subs cfg today = Inr table"
  unfolding generate_invoices_def Let_def assms(3) prod.case assms(4)
  using assms(1,2,5,6,7,8,9) by simp

lemma example_invoices:
  "generate_invoices (zero_rng_at 0) [example_customer] example_periods default_invoices_config
     (2026, 11, 4) = Inr example_invoice_table"
proof (rule generate_invoices_no_refund)
  let ?rows = "[annual_row (2024, 1, 10) (2024, 4, 9), annual_row (2024, 4, 24) (2024, 7, 23)]"
  show "[example_customer] \<noteq> []" by simp
  show "example_periods \<noteq> []" by (simp add: example_periods_def)
  show "standard_invoices (zero_rng_at 0) example_periods default_invoices_config
          (end_of_prev_month (2026, 11, 4)) = (?rows, zero_rng_at (Suc (Suc 0)))"
    unfolding cutoff_example by (rule example_standard)
  show "nat \<lfloor>real (length ?rows) * refund_rate default_invoices_config\<rfloor> = 0"
    by (simp add: default_invoices_config_def)
  show "?rows \<noteq> []" by simp
  have k: "sort_key (\<lambda>i. (inv_customer_id i, invoice_date i, amount i)) ?rows = ?rows"
    by (simp add: annual_row_def)
  show "assign_invoice_ids 1 (sort_key (\<lambda>i. (inv_customer_id i, invoice_date i, amount i)) ?rows)
          = example_invoice_table"
    unfolding k by (simp add: example_invoice_table_def id_examples del: str_nat.simps)
  show "distinct (map invoice_id example_invoice_table)"
    "set (map inv_customer_id example_invoice_table) \<subseteq> set (map customer_id [example_customer])"
    "list_all (\<lambda>i. amount i \<noteq> 0) example_invoice_table"
    by (simp_all add: example_invoice_table_def annual_row_def example_customer_def)
qed


lemma example_month_range:
  "month_range (2024, 2, 1) (2024, 4, 30) = [(2024, 2, 1), (2024, 3, 1), (2024, 4, 1)]"
  by (simp add: month_range_def replace_day1_def add_months_def year_def month_def day_def
      days_in_month_def Let_def)

lemma example_monthly:
  "invoices_for_period (half_rng_at 0) monthly_period default_invoices_config (2026, 10, 31)
   = ([monthly_row (2024, 2, 1) (2024, 2, 29), monthly_row (2024, 3, 1) (2024, 3, 31),
       monthly_row (2024, 4, 1) (2024, 4, 30)], half_rng_at (Suc 0))"
proof -
  have r: "rng_random (half_rng_at 0) = (1 / 2, half_rng_at (Suc 0))" by (rule half_random) simp
  have a: "round2 50 = 50" using round2_cents[of 5000] by simp
  have m: "monthly_rows ''C0001'' 50 (2024, 2, 1) (2024, 4, 30)
             [(2024, 2, 1), (2024, 3, 1), (2024, 4, 1)]
           = [monthly_row (2024, 2, 1) (2024, 2, 29), monthly_row (2024, 3, 1) (2024, 3, 31),
              monthly_row (2024, 4, 1) (2024, 4, 30)]"
    by (simp add: coverage_window_for_month_def invoice_dates bounded_def a monthly_row_def Let_def)
  show ?thesis
    unfolding invoices_for_period_def monthly_period_def mk_period_fields
    by (simp add: r default_invoices_config_def invoice_dates Let_def example_month_range m
        del: monthly_rows.simps)
qed


section \<open>Invoices stop at the billing cutoff (C6)\<close>

text \<open>
  Claim C6. For every generated invoice, standard or refund, the issue date and the
  end of the coverage window are never later than the last day of the calendar month
  before generation time; the same holds for the rows of every single period; and a
  period that starts after that cutoff produces no invoice and draws nothing.
\<close>

theorem invoices_bounded_by_cutoff:
  "(generate_invoices g customers subs cfg today = Inr invoices \<longrightarrow>
      list_all (\<lambda>i. invoice_date i \<le> end_of_prev_month today \<and>
                    period_end i \<le> end_of_prev_month today) invoices) \<and>
   list_all (\<lambda>i. invoice_date i \<le> end_of_prev_month today \<and>
                 period_end i \<le> end_of_prev_month today)
     (fst (invoices_for_period g0 r cfg (end_of_prev_month today))) \<and>
   (end_of_prev_month today < start_date r \<longrightarrow>
      invoices_for_period g0 r cfg (end_of_prev_month today) = ([], g0))"
  using generate_invoices_within[of g customers subs cfg today invoices]
    invoices_for_period_within[of "end_of_prev_month today" g0 r cfg]
    invoices_for_period_skipped[of "end_of_prev_month today" r g0 cfg]
  unfolding within_cutoff_def by blast

text \<open>On 2026-11-04 the cutoff is 2026-10-31. The example customer's two periods are
  billed annually, the period of 50 a month gives three monthly invoices, and the
  period that starts on 2026-11-01 gives none.\<close>

theorem invoices_bounded_by_cutoff_witness:
  "generate_invoices (zero_rng_at 0) [example_customer] example_periods default_invoices_config
     (2026, 11, 4) = Inr example_invoice_table \<and>
   end_of_prev_month (2026, 11, 4) = (2026, 10, 31) \<and>
   map invoice_date example_invoice_table = [(2024, 1, 10), (2024, 4, 24)] \<and>
   map period_end example_invoice_table = [(2024, 4, 9), (2024, 7, 23)] \<and>
   list_all (\<lambda>i. invoice_date i \<le> end_of_prev_month (2026, 11, 4) \<and>
                 period_end i \<le> end_of_prev_month (2026, 11, 4)) example_invoice_table \<and>
   fst (invoices_for_period (half_rng_at 0) monthly_period default_invoices_config
          (end_of_prev_month (2026, 11, 4)))
     = [monthly_row (2024, 2, 1) (2024, 2, 29), monthly_row (2024, 3, 1) (2024, 3, 31),
        monthly_row (2024, 4, 1) (2024, 4, 30)] \<and>
   list_all (\<lambda>i. invoice_date i \<le> end_of_prev_month (2026, 11, 4) \<and>
                 period_end i \<le> end_of_prev_month (2026, 11, 4))
     [monthly_row (2024, 2, 1) (2024, 2, 29), monthly_row (2024, 3, 1) (2024, 3, 31),
      monthly_row (2024, 4, 1) (2024, 4, 30)] \<and>
   end_of_prev_month (2026, 11, 4) < start_date future_period \<and>
   invoices_for_period (zero_rng_at 0) future_period default_invoices_config
     (end_of_prev_month (2026, 11, 4)) = ([], zero_rng_at 0)"
proof -
  note T1 = invoices_bounded_by_cutoff[of "zero_rng_at 0" "[example_customer]" example_periods
      default_invoices_config "(2026, 11, 4)" example_invoice_table "half_rng_at 0" monthly_period]
  note T2 = invoices_bounded_by_cutoff[of "zero_rng_at 0" "[example_customer]" example_periods
      default_invoices_config "(2026, 11, 4)" example_invoice_table "zero_rng_at 0" future_period]
  have fut: "end_of_prev_month (2026, 11, 4) < start_date future_period"
    by (simp add: cutoff_example future_period_def mk_period_fields)
  have mon: "fst (invoices_for_period (half_rng_at 0) monthly_period default_invoices_config
          (end_of_prev_month (2026, 11, 4)))
     = [monthly_row (2024, 2, 1) (2024, 2, 29), monthly_row (2024, 3, 1) (2024, 3, 31),
        monthly_row (2024, 4, 1) (2024, 4, 30)]"
    by (simp add: cutoff_example example_monthly)
  have cols: "map invoice_date example_invoice_table = [(2024, 1, 10), (2024, 4, 24)]"
    "map period_end example_invoice_table = [(2024, 4, 9), (2024, 7, 23)]"
    by (simp_all add: example_invoice_table_def annual_row_def)
  from T1 example_invoices have c1: "list_all (\<lambda>i. invoice_date i \<le> end_of_prev_month (2026, 11, 4) \<and>
                 period_end i \<le> end_of_prev_month (2026, 11, 4)) example_invoice_table"
    by blast
  from T1 mon have c2: "list_all (\<lambda>i. invoice_date i \<le> end_of_prev_month (2026, 11, 4) \<and>
                 period_end i \<le> end_of_prev_month (2026, 11, 4))
     [monthly_row (2024, 2, 1) (2024, 2, 29), monthly_row (2024, 3, 1) (2024, 3, 31),
      monthly_row (2024, 4, 1) (2024, 4, 30)]"
    by simp
  from T2 fut have c3: "invoices_for_period (zero_rng_at 0) future_period default_invoices_config
     (end_of_prev_month (2026, 11, 4)) = ([], zero_rng_at 0)"
    by blast
  show ?thesis
    using example_invoices cutoff_example cols c1 mon c2 fut c3 by blast
qed

end
